theory Spec2Isabelle
  imports Main "HOL-Library.Multiset" "HOL-Library.Sublist"
begin

section \<open>Values shared by the client and the bot\<close>

text \<open>
  A Go \<open>error\<close> value. \<open>errors_New s\<close> is what \<open>errors.New(s)\<close> builds; the other
  three constructors stand for the errors that the standard library hands back
  (\<open>net/url\<close>, \<open>net/http\<close> and \<open>encoding/json\<close>, reading a body included).
\<close>

datatype error =
    errors_New string
  | url_Error string
  | net_Error string
  | json_Error string

text \<open>
  An \<open>io.Reader\<close> over an HTTP body: the bytes it delivers, and the error that ends the
  stream when it does not end with EOF.
\<close>

datatype reader = Reader string "error option"

fun io_ReadAll :: "reader \<Rightarrow> error + string" where
  "io_ReadAll (Reader b None) = Inr b"
| "io_ReadAll (Reader b (Some e)) = Inl e"

record Request =
  Method :: string
  URL :: string
  ContentType :: string
  Body :: string

record Response =
  StatusCode :: int
  ContentType :: string
  Body :: reader

definition StatusOK :: int where
  "StatusOK = 200"

text \<open>\<open>strings.HasPrefix(s, p)\<close>.\<close>

definition HasPrefix :: "string \<Rightarrow> string \<Rightarrow> bool" where
  "HasPrefix s p = (take (length p) s = p)"

section \<open>Package mclogs: the API client\<close>

record PasteResponse =
  Success :: bool
  ID :: string
  URL :: string
  Raw :: string
  Error :: string

record LogLine =
  Number :: int
  Content :: string

record LogEntry =
  Level :: int
  Time :: "string option"
  Prefix :: string
  Lines :: "LogLine list"

record Solution =
  Message :: string

record Problem =
  Message :: string
  Counter :: int
  Entry :: LogEntry
  Solutions :: "Solution list"

record Information =
  Message :: string
  Counter :: int
  Label :: string
  Value :: string
  Entry :: LogEntry

record Analysis =
  Problems :: "Problem list"
  Information :: "Information list"

record InsightsResponse =
  ID :: string
  Name :: string
  Type :: string
  Version :: string
  Title :: string
  Analysis :: Analysis
  Error :: string

text \<open>The anonymous struct \<open>errResp\<close> of \<open>GetRawLog\<close> and \<open>GetInsights\<close>.\<close>

record errResp =
  Success :: bool
  Error :: string

text \<open>
  The client: its base endpoint and its HTTP client. \<open>HTTPClient c req w\<close> is
  \<open>c.HTTPClient.Do(req)\<close> in the world \<open>w\<close> (the network and the remote service): it
  returns the response or the transport error, and the world after the round trip.
\<close>

record 'w Client =
  BaseURL :: string
  HTTPClient :: "Request \<Rightarrow> 'w \<Rightarrow> (error + Response) \<times> 'w"

definition NewClient :: "(Request \<Rightarrow> 'w \<Rightarrow> (error + Response) \<times> 'w) \<Rightarrow> 'w Client" where
  "NewClient transport = \<lparr>BaseURL = ''https://api.mclo.gs'', HTTPClient = transport\<rparr>"

text \<open>
  What the client takes from Go's standard library without this repository defining it:
  whether \<open>url.Parse\<close> accepts an address (\<open>http.NewRequest\<close> fails exactly when it does
  not, the method being a constant), and \<open>json.NewDecoder(r).Decode\<close> at the three
  struct types the client decodes into.
\<close>

record golib =
  url_Parse :: "string \<Rightarrow> error option"
  Decode_PasteResponse :: "reader \<Rightarrow> error + PasteResponse"
  Decode_InsightsResponse :: "reader \<Rightarrow> error + InsightsResponse"
  Decode_errResp :: "reader \<Rightarrow> error + errResp"

definition NewRequest :: "golib \<Rightarrow> string \<Rightarrow> string \<Rightarrow> string \<Rightarrow> error + Request" where
  "NewRequest L method url body =
     (case url_Parse L url of
        Some err \<Rightarrow> Inl err
      | None \<Rightarrow> Inr \<lparr>Method = method, Request.URL = url, Request.ContentType = '''', Request.Body = body\<rparr>)"

subsection \<open>Form encoding\<close>

text \<open>
  \<open>url.QueryEscape\<close>: letters, digits and \<open>-_.~\<close> stand for themselves, a space becomes
  \<open>+\<close>, every other byte becomes \<open>%\<close> and its two upper-case hexadecimal digits.
\<close>

definition upperhex :: string where
  "upperhex = ''0123456789ABCDEF''"

definition unreserved :: string where
  "unreserved = ''abcdefghijklmnopqrstuvwxyzABCDEFGHIJKLMNOPQRSTUVWXYZ0123456789-_.~''"

definition shouldEscape :: "char \<Rightarrow> bool" where
  "shouldEscape c = (c \<notin> set unreserved)"

definition escape_byte :: "char \<Rightarrow> string" where
  "escape_byte c =
     (if c = CHR '' '' then ''+''
      else if shouldEscape c
        then [CHR ''%'', upperhex ! ((of_char c :: nat) div 16), upperhex ! ((of_char c :: nat) mod 16)]
      else [c])"

definition QueryEscape :: "string \<Rightarrow> string" where
  "QueryEscape s = concat (map escape_byte s)"

text \<open>\<open>url.Values.Encode\<close> of a value set with the single key \<open>k\<close> set to \<open>v\<close>.\<close>

definition Values_Encode :: "string \<Rightarrow> string \<Rightarrow> string" where
  "Values_Encode k v = QueryEscape k @ ''='' @ QueryEscape v"

subsection \<open>PasteLog, GetRawLog, GetInsights\<close>

definition PasteLog :: "golib \<Rightarrow> 'w Client \<Rightarrow> string \<Rightarrow> 'w \<Rightarrow> (error + PasteResponse) \<times> 'w" where
  "PasteLog L c content w =
     (let endpoint = BaseURL c @ ''/1/log'';
          data = Values_Encode ''content'' content
      in case NewRequest L ''POST'' endpoint data of
           Inl err \<Rightarrow> (Inl err, w)
         | Inr req \<Rightarrow>
             (case HTTPClient c (req\<lparr>Request.ContentType := ''application/x-www-form-urlencoded''\<rparr>) w of
                (Inl err, w') \<Rightarrow> (Inl err, w')
              | (Inr resp, w') \<Rightarrow>
                  (case Decode_PasteResponse L (Response.Body resp) of
                     Inl err \<Rightarrow> (Inl err, w')
                   | Inr pr \<Rightarrow>
                       if \<not> PasteResponse.Success pr
                       then (Inl (errors_New (PasteResponse.Error pr)), w')
                       else (Inr pr, w'))))"

definition GetRawLog :: "golib \<Rightarrow> 'w Client \<Rightarrow> string \<Rightarrow> 'w \<Rightarrow> (error + string) \<times> 'w" where
  "GetRawLog L c lid w =
     (let endpoint = BaseURL c @ ''/1/raw/'' @ lid
      in case NewRequest L ''GET'' endpoint '''' of
           Inl err \<Rightarrow> (Inl err, w)
         | Inr req \<Rightarrow>
             (case HTTPClient c req w of
                (Inl err, w') \<Rightarrow> (Inl err, w')
              | (Inr resp, w') \<Rightarrow>
                  if HasPrefix (Response.ContentType resp) ''text/plain''
                  then (case io_ReadAll (Response.Body resp) of
                          Inl err \<Rightarrow> (Inl err, w')
                        | Inr b \<Rightarrow> (Inr b, w'))
                  else (case Decode_errResp L (Response.Body resp) of
                          Inl err \<Rightarrow> (Inl err, w')
                        | Inr er \<Rightarrow> (Inl (errors_New (errResp.Error er)), w'))))"

definition GetInsights :: "golib \<Rightarrow> 'w Client \<Rightarrow> string \<Rightarrow> 'w \<Rightarrow> (error + InsightsResponse) \<times> 'w" where
  "GetInsights L c lid w =
     (let endpoint = BaseURL c @ ''/1/insights/'' @ lid
      in case NewRequest L ''GET'' endpoint '''' of
           Inl err \<Rightarrow> (Inl err, w)
         | Inr req \<Rightarrow>
             (case HTTPClient c req w of
                (Inl err, w') \<Rightarrow> (Inl err, w')
              | (Inr resp, w') \<Rightarrow>
                  if StatusCode resp \<noteq> StatusOK
                  then (case Decode_errResp L (Response.Body resp) of
                          Inl err \<Rightarrow> (Inl err, w')
                        | Inr er \<Rightarrow> (Inl (errors_New (errResp.Error er)), w'))
                  else (case Decode_InsightsResponse L (Response.Body resp) of
                          Inl err \<Rightarrow> (Inl err, w')
                        | Inr insights \<Rightarrow>
                            if InsightsResponse.Error insights \<noteq> ''''
                            then (Inl (errors_New (InsightsResponse.Error insights)), w')
                            else (Inr insights, w'))))"

text \<open>The request that \<open>PasteLog\<close> hands to the HTTP client.\<close>

definition paste_request :: "'w Client \<Rightarrow> string \<Rightarrow> Request" where
  "paste_request c content =
     \<lparr>Method = ''POST'', Request.URL = BaseURL c @ ''/1/log'',
      Request.ContentType = ''application/x-www-form-urlencoded'',
      Request.Body = ''content='' @ QueryEscape content\<rparr>"

text \<open>
  The three ways \<open>PasteLog\<close> can fail once the request is built: the round trip fails,
  the body does not decode, or the decoded response is marked unsuccessful.
\<close>

definition paste_transport_fails :: "'w Client \<Rightarrow> string \<Rightarrow> 'w \<Rightarrow> bool" where
  "paste_transport_fails c content w = isl (fst (HTTPClient c (paste_request c content) w))"

definition paste_decode_fails :: "golib \<Rightarrow> 'w Client \<Rightarrow> string \<Rightarrow> 'w \<Rightarrow> bool" where
  "paste_decode_fails L c content w =
     (case fst (HTTPClient c (paste_request c content) w) of
        Inl err \<Rightarrow> False
      | Inr resp \<Rightarrow> isl (Decode_PasteResponse L (Response.Body resp)))"

definition paste_rejected :: "golib \<Rightarrow> 'w Client \<Rightarrow> string \<Rightarrow> 'w \<Rightarrow> bool" where
  "paste_rejected L c content w =
     (case fst (HTTPClient c (paste_request c content) w) of
        Inl err \<Rightarrow> False
      | Inr resp \<Rightarrow>
          (case Decode_PasteResponse L (Response.Body resp) of
             Inl err \<Rightarrow> False
           | Inr pr \<Rightarrow> \<not> PasteResponse.Success pr))"

section \<open>A stub paste service\<close>

text \<open>
  Modelled from the spec: the stub service of the round-trip property, which the
  repository does not contain. It stores the content of every submitted paste under a
  new id and serves it back as plain text. Its state is the list of stored pastes,
  newest first. A form body is read back with the inverse of \<open>url.QueryEscape\<close>.
\<close>

definition unhex :: "char \<Rightarrow> nat option" where
  "unhex c = map_of (zip upperhex [0..<16] @ zip ''abcdef'' [10..<16]) c"

fun QueryUnescape :: "string \<Rightarrow> string option" where
  "QueryUnescape [] = Some []"
| "QueryUnescape (c # cs) =
     (if c = CHR ''%'' then
        (case cs of
           h1 # h2 # rest \<Rightarrow>
             (case (unhex h1, unhex h2) of
                (Some a, Some b) \<Rightarrow> map_option ((#) (char_of (16 * a + b))) (QueryUnescape rest)
              | _ \<Rightarrow> None)
         | _ \<Rightarrow> None)
      else if c = CHR ''+'' then map_option ((#) CHR '' '') (QueryUnescape cs)
      else map_option ((#) c) (QueryUnescape cs))"

definition form_content :: "string \<Rightarrow> string option" where
  "form_content body =
     (if HasPrefix body ''content='' then QueryUnescape (drop (length ''content='') body) else None)"

definition stub_new_id :: "(string \<times> string) list \<Rightarrow> string" where
  "stub_new_id store = replicate (Suc (length store)) (CHR ''a'')"

definition stub_paste :: "string \<Rightarrow> PasteResponse" where
  "stub_paste lid =
     \<lparr>PasteResponse.Success = True, PasteResponse.ID = lid,
      PasteResponse.URL = ''https://mclo.gs/'' @ lid,
      Raw = ''https://api.mclo.gs/1/raw/'' @ lid, PasteResponse.Error = ''''\<rparr>"

definition stub_refusal :: PasteResponse where
  "stub_refusal =
     \<lparr>PasteResponse.Success = False, PasteResponse.ID = '''', PasteResponse.URL = '''',
      Raw = '''', PasteResponse.Error = ''Required POST argument content is empty.''\<rparr>"

definition stub_service ::
  "(PasteResponse \<Rightarrow> string) \<Rightarrow> string \<Rightarrow> Request \<Rightarrow> (string \<times> string) list
     \<Rightarrow> (error + Response) \<times> (string \<times> string) list" where
  "stub_service enc base req store =
     (if Method req = ''POST'' \<and> Request.URL req = base @ ''/1/log'' then
        (case form_content (Request.Body req) of
           None \<Rightarrow>
             (Inr \<lparr>StatusCode = 400, Response.ContentType = ''application/json'',
                   Response.Body = Reader (enc stub_refusal) None\<rparr>, store)
         | Some content \<Rightarrow>
             (Inr \<lparr>StatusCode = 200, Response.ContentType = ''application/json'',
                   Response.Body = Reader (enc (stub_paste (stub_new_id store))) None\<rparr>,
              (stub_new_id store, content) # store))
      else if Method req = ''GET'' \<and> HasPrefix (Request.URL req) (base @ ''/1/raw/'') then
        (case map_of store (drop (length (base @ ''/1/raw/'')) (Request.URL req)) of
           None \<Rightarrow>
             (Inr \<lparr>StatusCode = 404, Response.ContentType = ''application/json'',
                   Response.Body = Reader ''Log not found.'' None\<rparr>, store)
         | Some content \<Rightarrow>
             (Inr \<lparr>StatusCode = 200, Response.ContentType = ''text/plain; charset=utf-8'',
                   Response.Body = Reader content None\<rparr>, store))
      else if Method req = ''GET'' \<and> HasPrefix (Request.URL req) (base @ ''/1/insights/'') then
        (case map_of store (drop (length (base @ ''/1/insights/'')) (Request.URL req)) of
           None \<Rightarrow>
             (Inr \<lparr>StatusCode = 404, Response.ContentType = ''application/json'',
                   Response.Body = Reader ''Log not found.'' None\<rparr>, store)
         | Some content \<Rightarrow>
             (Inr \<lparr>StatusCode = 200, Response.ContentType = ''application/json'',
                   Response.Body =
                     Reader (drop (length (base @ ''/1/insights/'')) (Request.URL req)) None\<rparr>,
              store))
      else (Inl (net_Error ''no such route''), store))"

text \<open>
  A wire format for the stub and a decoder for it: the stub writes the id of a stored
  paste (nothing for a refusal), and the decoder rebuilds the response from it; the
  insights of a paste go the same way. An error envelope is the error text itself.
\<close>

definition stub_enc :: "PasteResponse \<Rightarrow> string" where
  "stub_enc pr = PasteResponse.ID pr"

fun stub_dec :: "reader \<Rightarrow> error + PasteResponse" where
  "stub_dec (Reader b None) = Inr (if b = [] then stub_refusal else stub_paste b)"
| "stub_dec (Reader b (Some e)) = Inl e"

fun stub_dec_insights :: "reader \<Rightarrow> error + InsightsResponse" where
  "stub_dec_insights (Reader b None) =
     Inr \<lparr>InsightsResponse.ID = b, Name = ''Vanilla'', Type = ''Server Log'', Version = ''1.21'',
          Title = ''Vanilla 1.21 Server Log'',
          Analysis = \<lparr>Problems = [], Information = []\<rparr>, InsightsResponse.Error = []\<rparr>"
| "stub_dec_insights (Reader b (Some e)) = Inl e"

fun stub_dec_err :: "reader \<Rightarrow> error + errResp" where
  "stub_dec_err (Reader b None) = Inr \<lparr>errResp.Success = False, errResp.Error = b\<rparr>"
| "stub_dec_err (Reader b (Some e)) = Inl e"

definition stub_lib :: golib where
  "stub_lib =
     \<lparr>url_Parse = (\<lambda>u. if CHR 0x7F \<in> set u then Some (url_Error ''invalid control character in URL'') else None),
      Decode_PasteResponse = stub_dec,
      Decode_InsightsResponse = stub_dec_insights,
      Decode_errResp = stub_dec_err\<rparr>"

definition stub_client_at :: "(PasteResponse \<Rightarrow> string) \<Rightarrow> string \<Rightarrow> ((string \<times> string) list) Client" where
  "stub_client_at enc base = \<lparr>BaseURL = base, HTTPClient = stub_service enc base\<rparr>"

definition stub_client :: "((string \<times> string) list) Client" where
  "stub_client = NewClient (stub_service stub_enc ''https://api.mclo.gs'')"

section \<open>The bot: data of the chat platform\<close>

record MessageAttachment =
  ID :: string
  URL :: string
  Filename :: string
  ContentType :: string
  Size :: int

record User =
  ID :: string
  Username :: string

record MessageCreate =
  ID :: string
  ChannelID :: string
  Author :: User
  Attachments :: "MessageAttachment list"

record MessageEmbedField =
  Name :: string
  Value :: string
  Inline :: bool

record MessageEmbedAuthor =
  URL :: string
  Name :: string
  IconURL :: string

record MessageEmbed =
  Author :: MessageEmbedAuthor
  Title :: string
  Description :: string
  Fields :: "MessageEmbedField list"
  Color :: int
  Timestamp :: string

text \<open>
  The session \<open>s\<close> of the chat platform, as far as the handler calls it. Every call is
  a round trip in the world \<open>w\<close>. \<open>AvatarURL\<close> is the method of that name of a user.
\<close>

record 'w Session =
  ChannelTyping :: "string \<Rightarrow> 'w \<Rightarrow> error option \<times> 'w"
  GetUser :: "string \<Rightarrow> 'w \<Rightarrow> (error + User) \<times> 'w"
  ChannelMessageSendEmbed :: "string \<Rightarrow> MessageEmbed \<Rightarrow> 'w \<Rightarrow> error option \<times> 'w"
  AvatarURL :: "User \<Rightarrow> string \<Rightarrow> string"

text \<open>
  What else the handler reaches for: the package-level client \<open>mclc\<close> with the library
  it decodes with, \<open>http.Get\<close>, and the clock (\<open>time.Now().Format(time.RFC3339)\<close>).
\<close>

record 'w env =
  lib :: golib
  mclc :: "'w Client"
  http_Get :: "string \<Rightarrow> 'w \<Rightarrow> (error + Response) \<times> 'w"
  time_Now :: "'w \<Rightarrow> string"

text \<open>
  The calls that leave the process, in the order they are made, and the two ways the
  process ends before its time: a run-time panic and \<open>log.Fatalf\<close>. Logging is left out.
\<close>

datatype event =
    EvTyping string
  | EvGet string
  | EvPasteLog string
  | EvGetInsights string
  | EvUser string
  | EvSendEmbed string MessageEmbed
  | EvPanic
  | EvFatal

fun is_typing :: "event \<Rightarrow> bool" where
  "is_typing (EvTyping ch) = True"
| "is_typing ev = False"

fun is_send :: "event \<Rightarrow> bool" where
  "is_send (EvSendEmbed ch re) = True"
| "is_send ev = False"

fun is_paste :: "event \<Rightarrow> bool" where
  "is_paste (EvPasteLog content) = True"
| "is_paste ev = False"

definition text_plain :: "MessageAttachment \<Rightarrow> bool" where
  "text_plain at = HasPrefix (MessageAttachment.ContentType at) ''text/plain''"

definition size_ceiling :: nat where
  "size_ceiling = 10 * 1024 * 1024"

section \<open>The handler with one goroutine per attachment\<close>

text \<open>
  How the goroutine started for one attachment ends when it returns: with the field it
  appended to \<open>fs\<close>, or at one of its four early returns.
\<close>

datatype outcome =
    Field MessageEmbedField
  | DownloadFailed error
  | ReadFailed error
  | TooLarge nat
  | PasteFailed error

text \<open>
  Where such a goroutine stands. It makes three round trips, one after the other
  (\<open>http.Get\<close> with the reading of the body, \<open>PasteLog\<close>, \<open>GetInsights\<close>), and then
  appends to \<open>fs\<close> under the mutex. \<open>Append at pr an\<close> holds the insights pointer \<open>an\<close>,
  which is \<open>nil\<close> (\<open>None\<close>) when \<open>GetInsights\<close> failed: the failure is logged and the
  goroutine goes on. Reading \<open>an.Title\<close> through a \<open>nil\<close> pointer is a run-time panic,
  which nothing recovers: \<open>Crashed\<close>.
\<close>

datatype task =
    Download MessageAttachment
  | Submit MessageAttachment string
  | Analyse MessageAttachment PasteResponse
  | Append MessageAttachment PasteResponse "InsightsResponse option"
  | Returned MessageAttachment outcome
  | Crashed MessageAttachment

fun attachment_of :: "task \<Rightarrow> MessageAttachment" where
  "attachment_of (Download at) = at"
| "attachment_of (Submit at body) = at"
| "attachment_of (Analyse at pr) = at"
| "attachment_of (Append at pr an) = at"
| "attachment_of (Returned at oc) = at"
| "attachment_of (Crashed at) = at"

fun crashed :: "task \<Rightarrow> bool" where
  "crashed (Crashed at) = True"
| "crashed t = False"

fun returned :: "task \<Rightarrow> bool" where
  "returned (Returned at oc) = True"
| "returned t = False"

fun field_of :: "task \<Rightarrow> MessageEmbedField list" where
  "field_of (Returned at (Field f)) = [f]"
| "field_of t = []"

text \<open>
  One step of the goroutine: from where it stands, with the shared slice \<open>fs\<close> and the
  world, to where it stands next, with the calls it made.
\<close>

fun task_step ::
  "'w env \<Rightarrow> task \<Rightarrow> MessageEmbedField list \<Rightarrow> 'w
     \<Rightarrow> task \<times> MessageEmbedField list \<times> event list \<times> 'w" where
  "task_step E (Download at) fs w =
     (case http_Get E (MessageAttachment.URL at) w of
        (Inl err, w') \<Rightarrow>
          (Returned at (DownloadFailed err), fs, [EvGet (MessageAttachment.URL at)], w')
      | (Inr resp, w') \<Rightarrow>
          (case io_ReadAll (Response.Body resp) of
             Inl err \<Rightarrow>
               (Returned at (ReadFailed err), fs, [EvGet (MessageAttachment.URL at)], w')
           | Inr body \<Rightarrow>
               if length body > 10 * 1024 * 1024
               then (Returned at (TooLarge (length body)), fs,
                     [EvGet (MessageAttachment.URL at)], w')
               else (Submit at body, fs, [EvGet (MessageAttachment.URL at)], w')))"
| "task_step E (Submit at body) fs w =
     (case PasteLog (lib E) (mclc E) body w of
        (Inl err, w') \<Rightarrow> (Returned at (PasteFailed err), fs, [EvPasteLog body], w')
      | (Inr pr, w') \<Rightarrow> (Analyse at pr, fs, [EvPasteLog body], w'))"
| "task_step E (Analyse at pr) fs w =
     (case GetInsights (lib E) (mclc E) (PasteResponse.ID pr) w of
        (Inl err, w') \<Rightarrow> (Append at pr None, fs, [EvGetInsights (PasteResponse.ID pr)], w')
      | (Inr an, w') \<Rightarrow> (Append at pr (Some an), fs, [EvGetInsights (PasteResponse.ID pr)], w'))"
| "task_step E (Append at pr None) fs w = (Crashed at, fs, [EvPanic], w)"
| "task_step E (Append at pr (Some an)) fs w =
     (let f = \<lparr>MessageEmbedField.Name = InsightsResponse.Title an,
                Value = PasteResponse.URL pr, Inline = True\<rparr>
      in (Returned at (Field f), fs @ [f], [], w))"
| "task_step E (Returned at oc) fs w = (Returned at oc, fs, [], w)"
| "task_step E (Crashed at) fs w = (Crashed at, fs, [], w)"

text \<open>The goroutine on its own: \<open>n\<close> steps in a row, and the whole of it from its start.\<close>

fun task_run ::
  "'w env \<Rightarrow> nat \<Rightarrow> task \<Rightarrow> MessageEmbedField list \<Rightarrow> 'w
     \<Rightarrow> task \<times> MessageEmbedField list \<times> event list \<times> 'w" where
  "task_run E 0 t fs w = (t, fs, [], w)"
| "task_run E (Suc n) t fs w =
     (case task_step E t fs w of
        (t', fs', evs, w') \<Rightarrow>
          (case task_run E n t' fs' w' of
             (t'', fs'', evs', w'') \<Rightarrow> (t'', fs'', evs @ evs', w'')))"

definition worker ::
  "'w env \<Rightarrow> MessageAttachment \<Rightarrow> MessageEmbedField list \<Rightarrow> 'w
     \<Rightarrow> task \<times> MessageEmbedField list \<times> event list \<times> 'w" where
  "worker E at fs w = task_run E 4 (Download at) fs w"

text \<open>
  The state of one call of the handler after its guard: what is left of the loop of the
  goroutine that feeds the channel, its flag \<open>typingStarted\<close>, the goroutines started
  for the attachments received from the channel (in that order), the slice \<open>fs\<close>, the
  calls made so far, and the world.
\<close>

record 'w hstate =
  pending :: "MessageAttachment list"
  typingStarted :: bool
  tasks :: "task list"
  fs :: "MessageEmbedField list"
  calls :: "event list"
  world :: 'w

definition panicked :: "'w hstate \<Rightarrow> bool" where
  "panicked st = list_ex crashed (tasks st)"

text \<open>
  One turn of the feeding loop. The channel is unbuffered: the send, the receive by the
  \<open>range\<close> loop and the start of the goroutine for the attachment are one step.
\<close>

definition feeder_step :: "'w Session \<Rightarrow> MessageCreate \<Rightarrow> 'w hstate \<Rightarrow> 'w hstate" where
  "feeder_step s m st =
     (case pending st of
        [] \<Rightarrow> st
      | at # rest \<Rightarrow>
          if HasPrefix (MessageAttachment.ContentType at) ''text/plain'' then
            (let st1 =
               (if \<not> typingStarted st
                then (case ChannelTyping s (ChannelID m) (world st) of
                        (err, w') \<Rightarrow>
                          st\<lparr>typingStarted := True,
                             calls := calls st @ [EvTyping (ChannelID m)],
                             world := w'\<rparr>)
                else st)
             in st1\<lparr>pending := rest, tasks := tasks st1 @ [Download at]\<rparr>)
          else st\<lparr>pending := rest\<rparr>)"

definition worker_step :: "'w env \<Rightarrow> nat \<Rightarrow> 'w hstate \<Rightarrow> 'w hstate" where
  "worker_step E i st =
     (if i < length (tasks st) then
        (case task_step E (tasks st ! i) (fs st) (world st) of
           (t', fs', evs, w') \<Rightarrow>
             st\<lparr>tasks := (tasks st)[i := t'], fs := fs', calls := calls st @ evs, world := w'\<rparr>)
      else st)"

text \<open>
  A schedule is a list of choices: \<open>0\<close> lets the feeding goroutine take a turn,
  \<open>Suc i\<close> the goroutine of the \<open>i\<close>-th attachment received. A choice that cannot move
  is skipped, and nothing moves once a goroutine has panicked: the process is gone.
\<close>

fun step :: "'w env \<Rightarrow> 'w Session \<Rightarrow> MessageCreate \<Rightarrow> nat \<Rightarrow> 'w hstate \<Rightarrow> 'w hstate" where
  "step E s m 0 st = (if panicked st then st else feeder_step s m st)"
| "step E s m (Suc i) st = (if panicked st then st else worker_step E i st)"

fun run :: "'w env \<Rightarrow> 'w Session \<Rightarrow> MessageCreate \<Rightarrow> nat list \<Rightarrow> 'w hstate \<Rightarrow> 'w hstate" where
  "run E s m [] st = st"
| "run E s m (c # cs) st = run E s m cs (step E s m c st)"

text \<open>
  \<open>wg.Wait()\<close> returns when the channel is closed and every goroutine is done. The
  schedule \<open>drain n\<close> brings a call with at most \<open>n\<close> attachments there from wherever
  it stands: the feeding loop to its end, then every goroutine to its end.
\<close>

definition drain :: "nat \<Rightarrow> nat list" where
  "drain n = replicate n 0 @ concat (map (\<lambda>i. replicate 4 (Suc i)) [0..<n])"

text \<open>The lines after \<open>wg.Wait()\<close>: the reply.\<close>

definition assemble :: "'w env \<Rightarrow> 'w Session \<Rightarrow> MessageCreate \<Rightarrow> 'w hstate \<Rightarrow> 'w hstate" where
  "assemble E s m st =
     (if length (fs st) = 0 then st
      else
        (let re = \<lparr>Author = \<lparr>MessageEmbedAuthor.URL = ''https://mclo.gs/'',
                               MessageEmbedAuthor.Name = ''mclo.gs'', IconURL = ''''\<rparr>,
                   Title = ''Your logs were uploaded for easier reading'',
                   Description = ''-# [Why?](https://github.com/EmilyxFox/go-mclogs-bot/blob/main/why.md) [Source](https://github.com/emilyxfox/go-mclogs-bot)'',
                   Fields = fs st,
                   Color = 0x2d3943,
                   Timestamp = time_Now E (world st)\<rparr>
         in case GetUser s ''@me'' (world st) of
              (r, w1) \<Rightarrow>
                (let re' = (case r of
                              Inl err \<Rightarrow> re
                            | Inr botUser \<Rightarrow>
                                re\<lparr>Author := (Author re)\<lparr>IconURL := AvatarURL s botUser ''32''\<rparr>\<rparr>)
                 in case ChannelMessageSendEmbed s (ChannelID m) re' w1 of
                      (err, w2) \<Rightarrow>
                        st\<lparr>calls := calls st @ [EvUser ''@me'', EvSendEmbed (ChannelID m) re'],
                           world := w2\<rparr>)))"

definition init :: "MessageCreate \<Rightarrow> 'w \<Rightarrow> 'w hstate" where
  "init m w =
     \<lparr>pending = Attachments m, typingStarted = False, tasks = [], fs = [], calls = [],
      world = w\<rparr>"

text \<open>
  The handler under a schedule. A call that the guard turns away does nothing at all.
  A call in which a goroutine panicked ends there, with the process.
\<close>

definition handleMessageCreate ::
  "'w env \<Rightarrow> 'w Session \<Rightarrow> MessageCreate \<Rightarrow> nat list \<Rightarrow> 'w \<Rightarrow> 'w hstate" where
  "handleMessageCreate E s m sched w =
     (if length (Attachments m) < 1 \<or> length (Attachments m) > 5
      then (init m w)\<lparr>pending := []\<rparr>
      else
        (let st = run E s m (sched @ drain (length (Attachments m))) (init m w)
         in if panicked st then st else assemble E s m st))"

section \<open>The handler of main.go: one attachment after the other\<close>

text \<open>
  The loop over \<open>m.Attachments\<close> with its flag \<open>typingStarted\<close> and the calls made so far.
  The result says whether the process has exited (\<open>log.Fatalf\<close> ends it with status 1).
\<close>

fun main_go_loop ::
  "'w env \<Rightarrow> 'w Session \<Rightarrow> MessageCreate \<Rightarrow> MessageAttachment list \<Rightarrow> bool \<Rightarrow> event list \<Rightarrow> 'w
     \<Rightarrow> bool \<times> event list \<times> 'w" where
  "main_go_loop E s m [] started cs w = (False, cs, w)"
| "main_go_loop E s m (a # rest) started cs w =
     (if \<not> HasPrefix (MessageAttachment.ContentType a) ''text/plain''
      then main_go_loop E s m rest started cs w
      else
        (case (if \<not> started
               then (cs @ [EvTyping (ChannelID m)], snd (ChannelTyping s (ChannelID m) w))
               else (cs, w)) of
           (cs1, w1) \<Rightarrow>
             (case http_Get E (MessageAttachment.URL a) w1 of
                (Inl err, w2) \<Rightarrow>
                  main_go_loop E s m rest True (cs1 @ [EvGet (MessageAttachment.URL a)]) w2
              | (Inr resp, w2) \<Rightarrow>
                  (case io_ReadAll (Response.Body resp) of
                     Inl err \<Rightarrow>
                       main_go_loop E s m rest True (cs1 @ [EvGet (MessageAttachment.URL a)]) w2
                   | Inr body \<Rightarrow>
                       if length body > 10 * 1024 * 1024
                       then main_go_loop E s m rest True
                              (cs1 @ [EvGet (MessageAttachment.URL a)]) w2
                       else
                         (case PasteLog (lib E) (mclc E) body w2 of
                            (Inl err, w3) \<Rightarrow>
                              (True,
                               cs1 @ [EvGet (MessageAttachment.URL a), EvPasteLog body, EvFatal],
                               w3)
                          | (Inr pr, w3) \<Rightarrow>
                              (let re =
                                 \<lparr>Author = \<lparr>MessageEmbedAuthor.URL = ''https://mclo.gs/'',
                                             MessageEmbedAuthor.Name = ''mclo.gs'', IconURL = ''''\<rparr>,
                                  Title = '''',
                                  Description =
                                    ''Your logs were uploaded for easier reading:'' @ [CHR 0x0A]
                                      @ PasteResponse.URL pr,
                                  Fields = [],
                                  Color = 0x2d3943,
                                  Timestamp = time_Now E w3\<rparr>
                               in case GetUser s ''@me'' w3 of
                                    (r, w4) \<Rightarrow>
                                      (let re' =
                                         (case r of
                                            Inl err \<Rightarrow> re
                                          | Inr botUser \<Rightarrow>
                                              re\<lparr>Author :=
                                                   (Author re)\<lparr>IconURL := AvatarURL s botUser ''32''\<rparr>\<rparr>)
                                       in case ChannelMessageSendEmbed s (ChannelID m) re' w4 of
                                            (err, w5) \<Rightarrow>
                                              main_go_loop E s m rest True
                                                (cs1 @ [EvGet (MessageAttachment.URL a),
                                                        EvPasteLog body, EvUser ''@me'',
                                                        EvSendEmbed (ChannelID m) re'])
                                                w5)))))))"

definition main_go_handleMessageCreate ::
  "'w env \<Rightarrow> 'w Session \<Rightarrow> MessageCreate \<Rightarrow> 'w \<Rightarrow> bool \<times> event list \<times> 'w" where
  "main_go_handleMessageCreate E s m w =
     (if length (Attachments m) < 1 \<or> length (Attachments m) > 5 then (False, [], w)
      else main_go_loop E s m (Attachments m) False [] w)"

section \<open>A small world to run the handlers in\<close>

text \<open>
  Three files on the attachment server, a session that accepts every call, and the stub
  paste service, also with the insights route out of order or with one paste refused.
\<close>

definition big_body :: string where
  "big_body = replicate (11 * 1024 * 1024) (CHR ''x'')"

definition cdn_Get :: "string \<Rightarrow> 'w \<Rightarrow> (error + Response) \<times> 'w" where
  "cdn_Get url w =
     (if url = ''cdn/a.log'' then
        (Inr \<lparr>StatusCode = 200, Response.ContentType = ''text/plain'',
              Response.Body = Reader ''hello world'' None\<rparr>, w)
      else if url = ''cdn/b.log'' then
        (Inr \<lparr>StatusCode = 200, Response.ContentType = ''text/plain'',
              Response.Body = Reader ''second log'' None\<rparr>, w)
      else if url = ''cdn/big.log'' then
        (Inr \<lparr>StatusCode = 200, Response.ContentType = ''text/plain'',
              Response.Body = Reader big_body None\<rparr>, w)
      else (Inl (net_Error ''no such host''), w))"

definition demo_session :: "'w Session" where
  "demo_session =
     \<lparr>ChannelTyping = (\<lambda>ch w. (None, w)),
      GetUser = (\<lambda>u w. (Inr \<lparr>User.ID = ''7'', Username = ''mclogs-bot''\<rparr>, w)),
      ChannelMessageSendEmbed = (\<lambda>ch re w. (None, w)),
      AvatarURL = (\<lambda>u sz. ''cdn/avatars/'' @ User.ID u @ ''?size='' @ sz)\<rparr>"

definition demo_env ::
  "(Request \<Rightarrow> (string \<times> string) list \<Rightarrow> (error + Response) \<times> (string \<times> string) list)
     \<Rightarrow> ((string \<times> string) list) env" where
  "demo_env transport =
     \<lparr>lib = stub_lib, mclc = NewClient transport, http_Get = cdn_Get,
      time_Now = (\<lambda>w. ''2025-01-01T00:00:00Z'')\<rparr>"

definition stub_transport ::
  "Request \<Rightarrow> (string \<times> string) list \<Rightarrow> (error + Response) \<times> (string \<times> string) list" where
  "stub_transport = stub_service stub_enc ''https://api.mclo.gs''"

definition insights_down ::
  "Request \<Rightarrow> (string \<times> string) list \<Rightarrow> (error + Response) \<times> (string \<times> string) list" where
  "insights_down req store =
     (if HasPrefix (Request.URL req) ''https://api.mclo.gs/1/insights/''
      then (Inl (net_Error ''connection refused''), store)
      else stub_transport req store)"

definition refusing_hello ::
  "Request \<Rightarrow> (string \<times> string) list \<Rightarrow> (error + Response) \<times> (string \<times> string) list" where
  "refusing_hello req store =
     (if Request.Body req = ''content=hello+world''
      then (Inl (net_Error ''connection reset''), store)
      else stub_transport req store)"

text \<open>The insights of the second paste (id \<open>aa\<close>) cannot be had; all else works.\<close>

definition insights_down_second ::
  "Request \<Rightarrow> (string \<times> string) list \<Rightarrow> (error + Response) \<times> (string \<times> string) list" where
  "insights_down_second req store =
     (if Request.URL req = ''https://api.mclo.gs/1/insights/aa''
      then (Inl (net_Error ''connection refused''), store)
      else stub_transport req store)"

definition att_a :: MessageAttachment where
  "att_a = \<lparr>MessageAttachment.ID = ''1'', MessageAttachment.URL = ''cdn/a.log'',
            Filename = ''a.log'', MessageAttachment.ContentType = ''text/plain; charset=utf-8'',
            Size = 11\<rparr>"

definition att_b :: MessageAttachment where
  "att_b = \<lparr>MessageAttachment.ID = ''2'', MessageAttachment.URL = ''cdn/b.log'',
            Filename = ''b.log'', MessageAttachment.ContentType = ''text/plain'',
            Size = 10\<rparr>"

definition att_png :: MessageAttachment where
  "att_png = \<lparr>MessageAttachment.ID = ''3'', MessageAttachment.URL = ''cdn/c.png'',
              Filename = ''c.png'', MessageAttachment.ContentType = ''image/png'',
              Size = 2048\<rparr>"

definition att_big :: MessageAttachment where
  "att_big = \<lparr>MessageAttachment.ID = ''4'', MessageAttachment.URL = ''cdn/big.log'',
              Filename = ''big.log'', MessageAttachment.ContentType = ''text/plain'',
              Size = 11 * 1024 * 1024\<rparr>"

text \<open>An attachment that declares 11 MiB and delivers eleven bytes.\<close>

definition att_overstated :: MessageAttachment where
  "att_overstated = att_a\<lparr>Size := 11 * 1024 * 1024\<rparr>"

definition message_with :: "MessageAttachment list \<Rightarrow> MessageCreate" where
  "message_with ats =
     \<lparr>MessageCreate.ID = ''100'', ChannelID = ''general'',
      MessageCreate.Author = \<lparr>User.ID = ''42'', Username = ''emily''\<rparr>, Attachments = ats\<rparr>"

text \<open>What the stub service answers for the first paste, and the reply that comes of it.\<close>

definition insights_a :: InsightsResponse where
  "insights_a =
     \<lparr>InsightsResponse.ID = ''a'', Name = ''Vanilla'', Type = ''Server Log'', Version = ''1.21'',
      Title = ''Vanilla 1.21 Server Log'',
      Analysis = \<lparr>Problems = [], Information = []\<rparr>, InsightsResponse.Error = ''''\<rparr>"

definition field_a :: MessageEmbedField where
  "field_a = \<lparr>MessageEmbedField.Name = ''Vanilla 1.21 Server Log'',
               Value = ''https://mclo.gs/a'', Inline = True\<rparr>"

definition demo_embed :: "MessageEmbedField list \<Rightarrow> MessageEmbed" where
  "demo_embed fl =
     \<lparr>Author = \<lparr>MessageEmbedAuthor.URL = ''https://mclo.gs/'',
                 MessageEmbedAuthor.Name = ''mclo.gs'', IconURL = ''cdn/avatars/7?size=32''\<rparr>,
      Title = ''Your logs were uploaded for easier reading'',
      Description = ''-# [Why?](https://github.com/EmilyxFox/go-mclogs-bot/blob/main/why.md) [Source](https://github.com/emilyxfox/go-mclogs-bot)'',
      Fields = fl,
      Color = 0x2d3943,
      Timestamp = ''2025-01-01T00:00:00Z''\<rparr>"

definition demo_reply :: "MessageAttachment \<Rightarrow> ((string \<times> string) list) hstate" where
  "demo_reply at =
     \<lparr>pending = [], typingStarted = True, tasks = [Returned at (Field field_a)],
      fs = [field_a],
      calls = [EvTyping ''general'', EvGet ''cdn/a.log'', EvPasteLog ''hello world'',
               EvGetInsights ''a'', EvUser ''@me'', EvSendEmbed ''general'' (demo_embed [field_a])],
      world = [(''a'', ''hello world'')]\<rparr>"

section \<open>What a call of the handler keeps true\<close>

text \<open>
  The fields that the goroutines of a call have appended, the number of steps a goroutine
  has left at most, and the size ceiling as a property of a call to \<open>PasteLog\<close> and of a
  goroutine about to make one.
\<close>

definition fields_of :: "task list \<Rightarrow> MessageEmbedField list" where
  "fields_of ts = concat (map field_of ts)"

fun rank :: "task \<Rightarrow> nat" where
  "rank (Download at) = 4"
| "rank (Submit at body) = 3"
| "rank (Analyse at pr) = 2"
| "rank (Append at pr an) = 1"
| "rank (Returned at oc) = 0"
| "rank (Crashed at) = 0"

fun paste_within :: "event \<Rightarrow> bool" where
  "paste_within (EvPasteLog content) = (length content \<le> size_ceiling)"
| "paste_within ev = True"

fun submit_within :: "task \<Rightarrow> bool" where
  "submit_within (Submit at body) = (length body \<le> size_ceiling)"
| "submit_within t = True"

text \<open>
  \<open>typing_first ch cs\<close>: the first call of \<open>cs\<close> signals typing on \<open>ch\<close>, and no later one
  signals typing at all.
\<close>

fun typing_first :: "string \<Rightarrow> event list \<Rightarrow> bool" where
  "typing_first ch [] = False"
| "typing_first ch (ev # rest) = (ev = EvTyping ch \<and> filter is_typing rest = [])"

text \<open>
  The invariant of a call. \<open>dispatched\<close>: the goroutines started so far and the plain-text
  attachments still to come are the plain-text attachments of the message, in order.
  \<open>collected\<close>: \<open>fs\<close> holds the fields of the goroutines that returned with one, in some
  order. \<open>typed\<close>: typing was signalled when the first goroutine was started, once, and
  no reply has been sent. \<open>within\<close>: nothing above the ceiling was or will be submitted.
\<close>

definition dispatched :: "MessageCreate \<Rightarrow> 'w hstate \<Rightarrow> bool" where
  "dispatched m st \<longleftrightarrow>
     map attachment_of (tasks st) @ filter text_plain (pending st)
       = filter text_plain (Attachments m)
     \<and> length (tasks st) + length (pending st) \<le> length (Attachments m)"

definition collected :: "'w hstate \<Rightarrow> bool" where
  "collected st \<longleftrightarrow> mset (fs st) = mset (fields_of (tasks st))"

definition typed :: "MessageCreate \<Rightarrow> 'w hstate \<Rightarrow> bool" where
  "typed m st \<longleftrightarrow>
     (typingStarted st \<longleftrightarrow> tasks st \<noteq> [])
     \<and> (if tasks st = [] then calls st = [] else typing_first (ChannelID m) (calls st))
     \<and> filter is_send (calls st) = []"

definition within :: "'w hstate \<Rightarrow> bool" where
  "within st \<longleftrightarrow> list_all submit_within (tasks st) \<and> list_all paste_within (calls st)"

definition sound :: "MessageCreate \<Rightarrow> 'w hstate \<Rightarrow> bool" where
  "sound m st \<longleftrightarrow> dispatched m st \<and> collected st \<and> typed m st \<and> within st"

text \<open>
  \<open>lowered i k st st'\<close>: from \<open>st\<close> to \<open>st'\<close> the feeding loop stood still, no goroutine
  went backwards, and the \<open>i\<close>-th came \<open>k\<close> steps closer to its end. \<open>workers_drain\<close> is
  the second half of \<open>drain\<close>.
\<close>

definition lowered :: "nat \<Rightarrow> nat \<Rightarrow> 'w hstate \<Rightarrow> 'w hstate \<Rightarrow> bool" where
  "lowered i k st st' \<longleftrightarrow>
     pending st' = pending st \<and> length (tasks st') = length (tasks st)
     \<and> (\<forall>j < length (tasks st).
           rank (tasks st' ! j) \<le> rank (tasks st ! j) - (if j = i then k else 0))"

definition workers_drain :: "nat \<Rightarrow> nat list" where
  "workers_drain n = concat (map (\<lambda>i. replicate 4 (Suc i)) [0..<n])"

section \<open>The API client: results\<close>

lemma NewRequest_ok:
  "url_Parse L u = None \<Longrightarrow>
   NewRequest L m u b =
     Inr \<lparr>Method = m, Request.URL = u, Request.ContentType = '''', Request.Body = b\<rparr>"
  by (simp add: NewRequest_def)

lemma QueryEscape_content: "QueryEscape ''content'' = ''content''"
  by (simp add: QueryEscape_def escape_byte_def shouldEscape_def unreserved_def)

text \<open>With a base address that parses, \<open>PasteLog\<close> is one round trip on \<open>paste_request\<close>.\<close>

lemma PasteLog_unfold:
  assumes "url_Parse L (BaseURL c @ ''/1/log'') = None"
  shows "PasteLog L c content w =
     (case HTTPClient c (paste_request c content) w of
        (Inl err, w') \<Rightarrow> (Inl err, w')
      | (Inr resp, w') \<Rightarrow>
          (case Decode_PasteResponse L (Response.Body resp) of
             Inl err \<Rightarrow> (Inl err, w')
           | Inr pr \<Rightarrow>
               if PasteResponse.Success pr then (Inr pr, w')
               else (Inl (errors_New (PasteResponse.Error pr)), w')))"
  using assms
  by (simp add: PasteLog_def NewRequest_ok paste_request_def Values_Encode_def QueryEscape_content
      split: prod.splits sum.splits)

lemma stub_paste_hello:
  "HTTPClient stub_client (paste_request stub_client ''hello world'') [] =
     (Inr \<lparr>StatusCode = 200, Response.ContentType = ''application/json'',
           Response.Body = Reader ''a'' None\<rparr>, [(''a'', ''hello world'')])"
  by (simp add: stub_client_def NewClient_def stub_service_def paste_request_def form_content_def
      HasPrefix_def QueryEscape_def escape_byte_def shouldEscape_def unreserved_def
      stub_new_id_def stub_enc_def stub_paste_def)

lemma stub_client_parses: "url_Parse stub_lib (BaseURL stub_client @ ''/1/log'') = None"
  by (simp add: stub_lib_def stub_client_def NewClient_def)

lemma stub_PasteLog_hello:
  "PasteLog stub_lib stub_client ''hello world'' [] =
     (Inr (stub_paste ''a''), [(''a'', ''hello world'')])"
proof -
  have "Decode_PasteResponse stub_lib (Reader ''a'' None) = Inr (stub_paste ''a'')"
    by (simp add: stub_lib_def)
  then show ?thesis
    using stub_paste_hello by (simp add: PasteLog_unfold [OF stub_client_parses] stub_paste_def)
qed

lemma stub_GetInsights_a:
  "GetInsights stub_lib stub_client ''a'' [(''a'', ''hello world'')] =
     (stub_dec_insights (Reader ''a'' None), [(''a'', ''hello world'')])"
  by (simp add: GetInsights_def NewRequest_def stub_lib_def stub_client_def NewClient_def
      stub_service_def HasPrefix_def StatusOK_def)

text \<open>
  C8. \<open>PasteLog\<close> sends the content as a form-encoded body (the request is
  \<open>paste_request\<close>, for a client whose base address parses). It fails if and only if
  the round trip fails, the response body does not decode, or the decoded response has
  \<open>success = false\<close>; in that last case the error carries the error string of the
  service, and otherwise the decoded response is returned.
\<close>

theorem PasteLog_fails_iff:
  assumes "url_Parse L (BaseURL c @ ''/1/log'') = None"
  shows "(isl (fst (PasteLog L c content w)) \<longleftrightarrow>
            paste_transport_fails c content w \<or> paste_decode_fails L c content w
            \<or> paste_rejected L c content w)
       \<and> (\<forall>resp w' pr.
            HTTPClient c (paste_request c content) w = (Inr resp, w')
            \<and> Decode_PasteResponse L (Response.Body resp) = Inr pr \<longrightarrow>
            PasteLog L c content w =
              (if PasteResponse.Success pr then Inr pr
               else Inl (errors_New (PasteResponse.Error pr)), w'))"
  unfolding PasteLog_unfold [OF assms] paste_transport_fails_def paste_decode_fails_def
    paste_rejected_def
  by (auto split: prod.splits sum.splits)

theorem PasteLog_fails_iff_witness:
  "url_Parse stub_lib (BaseURL stub_client @ ''/1/log'') = None
   \<and> \<not> paste_transport_fails stub_client ''hello world'' []
   \<and> \<not> paste_decode_fails stub_lib stub_client ''hello world'' []
   \<and> \<not> paste_rejected stub_lib stub_client ''hello world'' []
   \<and> PasteLog stub_lib stub_client ''hello world'' [] =
        (Inr (stub_paste ''a''), [(''a'', ''hello world'')])"
proof -
  note h = stub_client_parses
  have d: "Decode_PasteResponse stub_lib (Reader ''a'' None) = Inr (stub_paste ''a'')"
    by (simp add: stub_lib_def)
  have s: "PasteResponse.Success (stub_paste ''a'')"
    by (simp add: stub_paste_def)
  have p: "PasteLog stub_lib stub_client ''hello world'' [] =
             (Inr (stub_paste ''a''), [(''a'', ''hello world'')])"
    using PasteLog_fails_iff [OF h, of "''hello world''" "[]"] stub_paste_hello d s by simp
  have "\<not> isl (fst (PasteLog stub_lib stub_client ''hello world'' []))"
    by (simp add: p)
  then show ?thesis
    using h p PasteLog_fails_iff [OF h, of "''hello world''" "[]"] by simp
qed

subsection \<open>The form encoding can be read back\<close>

lemma unhex_digits: "list_all (\<lambda>n. unhex (upperhex ! n) = Some n) [0..<16]"
  by code_simp

lemma unhex_upperhex: "n < 16 \<Longrightarrow> unhex (upperhex ! n) = Some n"
  using unhex_digits by (simp add: list_all_iff)

lemma shouldEscape_percent: "shouldEscape CHR ''%''"
  and shouldEscape_plus: "shouldEscape CHR ''+''"
  by (simp_all add: shouldEscape_def unreserved_def)

lemma char_hex_split:
  "char_of (16 * ((of_char c :: nat) div 16) + (of_char c :: nat) mod 16) = c"
  by simp

lemma QueryUnescape_escape_byte:
  "QueryUnescape (escape_byte c @ rest) = map_option ((#) c) (QueryUnescape rest)"
proof (cases "c = CHR '' ''")
  case True
  then show ?thesis by (simp add: escape_byte_def)
next
  case sp: False
  show ?thesis
  proof (cases "shouldEscape c")
    case True
    have "(of_char c :: nat) < 256" by simp
    then have hi: "(of_char c :: nat) div 16 < 16" by arith
    have lo: "(of_char c :: nat) mod 16 < 16" by simp
    show ?thesis using sp True
      by (simp add: escape_byte_def unhex_upperhex [OF hi] unhex_upperhex [OF lo] char_hex_split)
  next
    case False
    then have "c \<noteq> CHR ''%''" "c \<noteq> CHR ''+''"
      using shouldEscape_percent shouldEscape_plus by auto
    then show ?thesis using sp False by (simp add: escape_byte_def)
  qed
qed

lemma QueryUnescape_QueryEscape: "QueryUnescape (QueryEscape s) = Some s"
  by (induction s)
    (simp_all add: QueryEscape_def QueryUnescape_escape_byte del: QueryUnescape.simps(2))

lemma form_content_paste_request:
  "form_content (Request.Body (paste_request c content)) = Some content"
  by (simp add: form_content_def paste_request_def HasPrefix_def QueryUnescape_QueryEscape)

lemma stub_service_paste:
  "stub_service enc (BaseURL c) (paste_request c content) store =
     (Inr \<lparr>StatusCode = 200, Response.ContentType = ''application/json'',
           Response.Body = Reader (enc (stub_paste (stub_new_id store))) None\<rparr>,
      (stub_new_id store, content) # store)"
  unfolding stub_service_def form_content_paste_request
  by (simp add: paste_request_def)

lemma stub_service_raw:
  "map_of store lid = Some content \<Longrightarrow>
   stub_service enc base
     \<lparr>Method = ''GET'', Request.URL = base @ ''/1/raw/'' @ lid, Request.ContentType = '''',
      Request.Body = ''''\<rparr> store =
     (Inr \<lparr>StatusCode = 200, Response.ContentType = ''text/plain; charset=utf-8'',
           Response.Body = Reader content None\<rparr>, store)"
  by (simp add: stub_service_def HasPrefix_def)

text \<open>
  C9. Round trip against the stub service: whatever the content, \<open>PasteLog\<close> stores it
  and \<open>GetRawLog\<close> on the id it returned gives back the very same bytes. The library
  has to parse the two addresses and to decode the response that the stub writes.
\<close>

theorem paste_then_raw_roundtrip:
  assumes url1: "url_Parse L (base @ ''/1/log'') = None"
    and url2: "url_Parse L (base @ ''/1/raw/'' @ stub_new_id store) = None"
    and dec: "Decode_PasteResponse L (Reader (enc (stub_paste (stub_new_id store))) None)
                = Inr (stub_paste (stub_new_id store))"
  shows "\<exists>pr store'.
           PasteLog L (stub_client_at enc base) content store = (Inr pr, store')
         \<and> GetRawLog L (stub_client_at enc base) (PasteResponse.ID pr) store'
             = (Inr content, store')"
proof -
  let ?c = "stub_client_at enc base"
  let ?lid = "stub_new_id store"
  let ?store' = "(?lid, content) # store"
  have base: "BaseURL ?c = base" and http: "HTTPClient ?c = stub_service enc base"
    by (simp_all add: stub_client_at_def)
  have "HTTPClient ?c (paste_request ?c content) store =
          (Inr \<lparr>StatusCode = 200, Response.ContentType = ''application/json'',
                Response.Body = Reader (enc (stub_paste ?lid)) None\<rparr>, ?store')"
    using stub_service_paste [of enc ?c content store] by (simp add: base http)
  then have paste: "PasteLog L ?c content store = (Inr (stub_paste ?lid), ?store')"
    using url1 dec by (simp add: PasteLog_unfold base stub_paste_def)
  have "map_of ?store' ?lid = Some content" by simp
  then have "GetRawLog L ?c ?lid ?store' = (Inr content, ?store')"
    using url2 stub_service_raw [of ?store' ?lid content enc base]
    by (simp add: GetRawLog_def NewRequest_ok base http HasPrefix_def del: map_of.simps)
  moreover have "PasteResponse.ID (stub_paste ?lid) = ?lid" by (simp add: stub_paste_def)
  ultimately show ?thesis using paste by auto
qed

theorem paste_then_raw_roundtrip_witness:
  "url_Parse stub_lib (''https://api.mclo.gs'' @ ''/1/log'') = None
   \<and> url_Parse stub_lib (''https://api.mclo.gs'' @ ''/1/raw/'' @ stub_new_id []) = None
   \<and> Decode_PasteResponse stub_lib (Reader (stub_enc (stub_paste (stub_new_id []))) None)
         = Inr (stub_paste (stub_new_id []))
   \<and> (\<exists>pr store'.
           PasteLog stub_lib (stub_client_at stub_enc ''https://api.mclo.gs'') ''hello world'' []
             = (Inr pr, store')
         \<and> GetRawLog stub_lib (stub_client_at stub_enc ''https://api.mclo.gs'')
               (PasteResponse.ID pr) store'
             = (Inr ''hello world'', store'))"
proof -
  have h1: "url_Parse stub_lib (''https://api.mclo.gs'' @ ''/1/log'') = None"
    by (simp add: stub_lib_def)
  have h2: "url_Parse stub_lib (''https://api.mclo.gs'' @ ''/1/raw/'' @ stub_new_id []) = None"
    by (simp add: stub_lib_def stub_new_id_def)
  have h3: "Decode_PasteResponse stub_lib (Reader (stub_enc (stub_paste (stub_new_id []))) None)
         = Inr (stub_paste (stub_new_id []))"
    by (simp add: stub_lib_def stub_enc_def stub_paste_def stub_new_id_def)
  show ?thesis
    using h1 h2 h3
      paste_then_raw_roundtrip [where L = stub_lib and base = "''https://api.mclo.gs''"
        and store = "[]" and enc = stub_enc and content = "''hello world''"]
    by blast
qed

text \<open>
  C10. A caller never sees a returned value that itself reports a failure: a response
  returned by \<open>PasteLog\<close> has \<open>Success\<close> set, and a response returned by \<open>GetInsights\<close>
  has an empty \<open>Error\<close>.
\<close>

theorem client_success_invariant:
  "(PasteLog L c content w = (Inr pr, w') \<longrightarrow> PasteResponse.Success pr)
   \<and> (GetInsights L c lid v = (Inr ir, v') \<longrightarrow> InsightsResponse.Error ir = '''')"
  by (auto simp: PasteLog_def GetInsights_def Let_def split: sum.splits prod.splits if_splits)

theorem client_success_invariant_witness:
  "PasteLog stub_lib stub_client ''hello world'' [] =
     (Inr (stub_paste ''a''), [(''a'', ''hello world'')])
   \<and> PasteResponse.Success (stub_paste ''a'')
   \<and> (\<exists>ir. GetInsights stub_lib stub_client ''a'' [(''a'', ''hello world'')]
              = (Inr ir, [(''a'', ''hello world'')])
          \<and> InsightsResponse.Error ir = '''')"
proof -
  note p = stub_PasteLog_hello
  obtain ir where i: "GetInsights stub_lib stub_client ''a'' [(''a'', ''hello world'')]
                        = (Inr ir, [(''a'', ''hello world'')])"
    using stub_GetInsights_a by simp
  show ?thesis
    using p i
      client_success_invariant [of stub_lib stub_client "''hello world''" "[]" "stub_paste ''a''"
        "[(''a'', ''hello world'')]" "''a''" "[(''a'', ''hello world'')]" ir
        "[(''a'', ''hello world'')]"]
    by blast
qed

section \<open>The handler with goroutines: one step\<close>

lemma task_step_cases:
  obtains (Download) at where "t = Download at"
  | (Submit) at body where "t = Submit at body"
  | (Analyse) at pr where "t = Analyse at pr"
  | (Nil) at pr where "t = Append at pr None"
  | (Some) at pr an where "t = Append at pr (Some an)"
  | (Returned) at oc where "t = Returned at oc"
  | (Crashed) at where "t = Crashed at"
proof (cases t)
  case (Append at pr an)
  then show ?thesis using that(4,5) by (cases an) auto
qed (use that in blast)+

lemma task_step_attachment:
  "task_step E t fl w = (t', fl', evs, w') \<Longrightarrow> attachment_of t' = attachment_of t"
  by (cases t rule: task_step_cases)
    (auto simp: Let_def split: prod.splits sum.splits if_splits)

lemma task_step_fields:
  "task_step E t fl w = (t', fl', evs, w') \<Longrightarrow>
   mset fl' + mset (field_of t) = mset fl + mset (field_of t')"
  by (cases t rule: task_step_cases)
    (auto simp: Let_def split: prod.splits sum.splits if_splits)

lemma task_step_events:
  "task_step E t fl w = (t', fl', evs, w') \<Longrightarrow>
   filter is_typing evs = [] \<and> filter is_send evs = []"
  by (cases t rule: task_step_cases)
    (auto simp: Let_def split: prod.splits sum.splits if_splits)

lemma task_step_within:
  "task_step E t fl w = (t', fl', evs, w') \<Longrightarrow> submit_within t \<Longrightarrow>
   submit_within t' \<and> list_all paste_within evs"
  by (cases t rule: task_step_cases)
    (auto simp: Let_def size_ceiling_def split: prod.splits sum.splits if_splits)

lemma task_step_rank:
  "task_step E t fl w = (t', fl', evs, w') \<Longrightarrow> rank t' \<le> rank t - 1"
  by (cases t rule: task_step_cases)
    (auto simp: Let_def split: prod.splits sum.splits if_splits)

lemma rank_0: "rank t = 0 \<longleftrightarrow> returned t \<or> crashed t"
  by (cases t) auto

section \<open>The handler with goroutines: the invariant\<close>

lemma typing_first_append:
  "typing_first ch cs \<Longrightarrow> filter is_typing evs = [] \<Longrightarrow> typing_first ch (cs @ evs)"
  by (cases cs) simp_all

lemma fields_of_update:
  "i < length ts \<Longrightarrow>
   mset (fields_of (ts[i := t'])) + mset (field_of (ts ! i))
     = mset (fields_of ts) + mset (field_of t')"
proof (induction ts arbitrary: i)
  case Nil
  then show ?case by simp
next
  case (Cons t ts)
  show ?case
  proof (cases i)
    case 0
    then show ?thesis by (simp add: fields_of_def)
  next
    case (Suc j)
    then have "j < length ts" using Cons.prems by simp
    from Cons.IH [OF this] show ?thesis using Suc by (simp add: fields_of_def)
  qed
qed

lemma list_all_update:
  "list_all P xs \<Longrightarrow> P y \<Longrightarrow> list_all P (xs[i := y])"
  by (induction xs arbitrary: i) (auto split: nat.splits)

lemma map_update_same:
  "i < length xs \<Longrightarrow> f y = f (xs ! i) \<Longrightarrow> map f (xs[i := y]) = map f xs"
  by (simp add: map_update list_update_same_conv)

lemma sound_init: "sound m (init m w)"
  by (simp add: sound_def dispatched_def collected_def typed_def within_def init_def fields_of_def)

lemma feeder_step_skip:
  "pending st = at # rest \<Longrightarrow> \<not> text_plain at \<Longrightarrow> feeder_step s m st = st\<lparr>pending := rest\<rparr>"
  by (simp add: feeder_step_def text_plain_def)

lemma feeder_step_next:
  "pending st = at # rest \<Longrightarrow> text_plain at \<Longrightarrow> typingStarted st \<Longrightarrow>
   feeder_step s m st = st\<lparr>pending := rest, tasks := tasks st @ [Download at]\<rparr>"
  by (simp add: feeder_step_def text_plain_def)

lemma feeder_step_first:
  "pending st = at # rest \<Longrightarrow> text_plain at \<Longrightarrow> \<not> typingStarted st \<Longrightarrow>
   feeder_step s m st =
     st\<lparr>typingStarted := True, calls := calls st @ [EvTyping (ChannelID m)],
        world := snd (ChannelTyping s (ChannelID m) (world st)),
        pending := rest, tasks := tasks st @ [Download at]\<rparr>"
  by (simp add: feeder_step_def text_plain_def split: prod.splits)

lemma feeder_step_sound:
  assumes "sound m st"
  shows "sound m (feeder_step s m st)"
proof (cases "pending st")
  case Nil
  then show ?thesis using assms by (simp add: feeder_step_def)
next
  case (Cons at rest)
  show ?thesis
  proof (cases "text_plain at")
    case False
    show ?thesis unfolding feeder_step_skip [OF Cons False] using assms Cons False
      by (simp add: sound_def dispatched_def collected_def typed_def within_def)
  next
    case True
    show ?thesis
    proof (cases "typingStarted st")
      case started: True
      then have "tasks st \<noteq> []" using assms by (simp add: sound_def typed_def)
      then show ?thesis unfolding feeder_step_next [OF Cons True started] using assms Cons True
        by (simp add: sound_def dispatched_def collected_def typed_def within_def fields_of_def)
    next
      case False
      then have "tasks st = []" using assms by (simp add: sound_def typed_def)
      moreover from this have "calls st = []" using assms by (simp add: sound_def typed_def)
      ultimately show ?thesis unfolding feeder_step_first [OF Cons True False] using assms Cons True
        by (simp add: sound_def dispatched_def collected_def typed_def within_def fields_of_def)
    qed
  qed
qed

lemma worker_step_unfold:
  "i < length (tasks st) \<Longrightarrow> task_step E (tasks st ! i) (fs st) (world st) = (t', fl', evs, w') \<Longrightarrow>
   worker_step E i st =
     st\<lparr>tasks := (tasks st)[i := t'], fs := fl', calls := calls st @ evs, world := w'\<rparr>"
  by (simp add: worker_step_def)

lemma worker_step_sound:
  assumes "sound m st"
  shows "sound m (worker_step E i st)"
proof (cases "i < length (tasks st)")
  case False
  then show ?thesis using assms by (simp add: worker_step_def)
next
  case True
  obtain t' fl' evs w' where ts: "task_step E (tasks st ! i) (fs st) (world st) = (t', fl', evs, w')"
    by (metis prod_cases4)
  let ?st' = "st\<lparr>tasks := (tasks st)[i := t'], fs := fl', calls := calls st @ evs, world := w'\<rparr>"
  have st': "worker_step E i st = ?st'" by (rule worker_step_unfold [OF True ts])
  have att: "attachment_of t' = attachment_of (tasks st ! i)" by (rule task_step_attachment [OF ts])
  have "map attachment_of ((tasks st)[i := t']) = map attachment_of (tasks st)"
    by (rule map_update_same [OF True att])
  then have d: "dispatched m ?st'" using assms by (simp add: sound_def dispatched_def)
  have "mset fl' + mset (field_of (tasks st ! i)) = mset (fs st) + mset (field_of t')"
    by (rule task_step_fields [OF ts])
  moreover have "mset (fields_of ((tasks st)[i := t'])) + mset (field_of (tasks st ! i))
     = mset (fields_of (tasks st)) + mset (field_of t')"
    by (rule fields_of_update [OF True])
  moreover have "mset (fs st) = mset (fields_of (tasks st))"
    using assms by (simp add: sound_def collected_def)
  ultimately have "mset fl' = mset (fields_of ((tasks st)[i := t']))"
    by (metis add_right_imp_eq)
  then have c: "collected ?st'" by (simp add: collected_def)
  have ne: "tasks st \<noteq> []" using True by auto
  have ev: "filter is_typing evs = []" "filter is_send evs = []"
    using task_step_events [OF ts] by simp_all
  have "typing_first (ChannelID m) (calls st)" using assms ne by (simp add: sound_def typed_def)
  then have "typing_first (ChannelID m) (calls st @ evs)" using ev(1) by (rule typing_first_append)
  then have t: "typed m ?st'" using assms ne ev(2)
    by (simp add: sound_def typed_def)
  have "submit_within (tasks st ! i)" using assms True
    by (simp add: sound_def within_def list_all_length)
  from task_step_within [OF ts this] have "submit_within t'" "list_all paste_within evs" by simp_all
  then have w: "within ?st'" using assms
    by (simp add: sound_def within_def list_all_update)
  show ?thesis unfolding st' sound_def using d c t w by simp
qed

lemma step_sound: "sound m st \<Longrightarrow> sound m (step E s m c st)"
  by (cases c) (simp_all add: feeder_step_sound worker_step_sound)

lemma run_sound: "sound m st \<Longrightarrow> sound m (run E s m cs st)"
  by (induction cs arbitrary: st) (simp_all add: step_sound)

section \<open>The handler with goroutines: every call comes to its end\<close>

lemma step_panicked: "panicked st \<Longrightarrow> step E s m c st = st"
  by (cases c) simp_all

lemma run_panicked: "panicked st \<Longrightarrow> run E s m cs st = st"
  by (induction cs) (simp_all add: step_panicked)

lemma run_append: "run E s m (cs @ ds) st = run E s m ds (run E s m cs st)"
  by (induction cs arbitrary: st) simp_all

lemma run_not_panicked: "\<not> panicked (run E s m cs st) \<Longrightarrow> \<not> panicked st"
  using run_panicked by metis

lemma feeder_step_pending:
  "length (pending (feeder_step s m st)) = length (pending st) - 1"
  by (simp add: feeder_step_def Let_def split: list.splits prod.splits)

lemma feeder_drain:
  "\<not> panicked (run E s m (replicate k 0) st) \<Longrightarrow> length (pending st) \<le> k \<Longrightarrow>
   pending (run E s m (replicate k 0) st) = []"
proof (induction k arbitrary: st)
  case 0
  then show ?case by simp
next
  case (Suc k)
  have np: "\<not> panicked st"
    using Suc.prems(1) by (rule run_not_panicked)
  then have st: "step E s m 0 st = feeder_step s m st" by simp
  have "length (pending (feeder_step s m st)) \<le> k"
    using Suc.prems(2) by (simp add: feeder_step_pending)
  then show ?case using Suc.IH [of "feeder_step s m st"] Suc.prems(1) np by simp
qed

lemma worker_step_lowered: "lowered i 1 st (worker_step E i st)"
proof (cases "i < length (tasks st)")
  case False
  then show ?thesis by (simp add: worker_step_def lowered_def)
next
  case True
  obtain t' fl' evs w' where ts: "task_step E (tasks st ! i) (fs st) (world st) = (t', fl', evs, w')"
    by (metis prod_cases4)
  have "rank t' \<le> rank (tasks st ! i) - 1" by (rule task_step_rank [OF ts])
  then show ?thesis
    unfolding worker_step_unfold [OF True ts] lowered_def
    by (simp add: nth_list_update)
qed

lemma lowered_trans:
  "lowered i a st st' \<Longrightarrow> lowered i b st' st'' \<Longrightarrow> lowered i (a + b) st st''"
  unfolding lowered_def
proof (intro conjI allI impI)
  fix j
  assume a: "pending st' = pending st \<and> length (tasks st') = length (tasks st) \<and>
       (\<forall>j<length (tasks st). rank (tasks st' ! j) \<le> rank (tasks st ! j) - (if j = i then a else 0))"
    and b: "pending st'' = pending st' \<and> length (tasks st'') = length (tasks st') \<and>
       (\<forall>j<length (tasks st'). rank (tasks st'' ! j) \<le> rank (tasks st' ! j) - (if j = i then b else 0))"
    and j: "j < length (tasks st)"
  have "rank (tasks st' ! j) \<le> rank (tasks st ! j) - (if j = i then a else 0)" using a j by blast
  moreover have "rank (tasks st'' ! j) \<le> rank (tasks st' ! j) - (if j = i then b else 0)"
    using a b j by simp
  ultimately show "rank (tasks st'' ! j) \<le> rank (tasks st ! j) - (if j = i then a + b else 0)"
    by (simp split: if_splits)
qed simp_all

lemma lowered_refl: "lowered i 0 st st"
  by (simp add: lowered_def)

lemma worker_drain:
  "\<not> panicked (run E s m (replicate k (Suc i)) st) \<Longrightarrow>
   lowered i k st (run E s m (replicate k (Suc i)) st)"
proof (induction k arbitrary: st)
  case 0
  then show ?case by (simp add: lowered_refl)
next
  case (Suc k)
  have np: "\<not> panicked st"
    using Suc.prems by (rule run_not_panicked)
  then have st: "step E s m (Suc i) st = worker_step E i st" by simp
  have "lowered i k (worker_step E i st) (run E s m (replicate k (Suc i)) (worker_step E i st))"
    using Suc.IH [of "worker_step E i st"] Suc.prems np by simp
  from lowered_trans [OF worker_step_lowered this] show ?case using np by simp
qed

lemma rank_le_4: "rank t \<le> 4"
  by (cases t) simp_all

lemma workers_drain_Suc: "workers_drain (Suc n) = workers_drain n @ replicate 4 (Suc n)"
  by (simp add: workers_drain_def)

lemma all_workers_drain:
  "\<not> panicked (run E s m (workers_drain n) st) \<Longrightarrow>
   pending (run E s m (workers_drain n) st) = pending st
   \<and> length (tasks (run E s m (workers_drain n) st)) = length (tasks st)
   \<and> (\<forall>j < length (tasks st).
         rank (tasks (run E s m (workers_drain n) st) ! j) \<le> rank (tasks st ! j)
         \<and> (j < n \<longrightarrow> rank (tasks (run E s m (workers_drain n) st) ! j) = 0))"
proof (induction n)
  case 0
  then show ?case by (simp add: workers_drain_def)
next
  case (Suc n)
  let ?st1 = "run E s m (workers_drain n) st"
  let ?st2 = "run E s m (replicate 4 (Suc n)) ?st1"
  have fin: "run E s m (workers_drain (Suc n)) st = ?st2"
    by (simp add: workers_drain_Suc run_append)
  have np2: "\<not> panicked ?st2" using Suc.prems by (simp add: fin)
  then have np1: "\<not> panicked ?st1" by (rule run_not_panicked)
  note ih = Suc.IH [OF np1]
  have low: "lowered n 4 ?st1 ?st2" by (rule worker_drain [OF np2])
  show ?case unfolding fin
  proof (intro conjI allI impI)
    show "pending ?st2 = pending st" using ih low by (simp add: lowered_def)
    show len: "length (tasks ?st2) = length (tasks st)" using ih low by (simp add: lowered_def)
  next
    fix j assume j: "j < length (tasks st)"
    then have j1: "j < length (tasks ?st1)" using ih by simp
    have a: "rank (tasks ?st2 ! j) \<le> rank (tasks ?st1 ! j) - (if j = n then 4 else 0)"
      using low j1 by (simp add: lowered_def)
    have b: "rank (tasks ?st1 ! j) \<le> rank (tasks st ! j)" using ih j by blast
    show "rank (tasks ?st2 ! j) \<le> rank (tasks st ! j)" using a b by (simp split: if_splits)
    assume "j < Suc n"
    then consider "j < n" | "j = n" by linarith
    then show "rank (tasks ?st2 ! j) = 0"
    proof cases
      case 1
      then have "rank (tasks ?st1 ! j) = 0" using ih j by blast
      then show ?thesis using a by simp
    next
      case 2
      then show ?thesis using a rank_le_4 [of "tasks ?st1 ! j"] by simp
    qed
  qed
qed

lemma drain_split: "drain n = replicate n 0 @ workers_drain n"
  by (simp add: drain_def workers_drain_def)

lemma not_panicked_returned:
  "\<not> panicked st \<Longrightarrow> \<forall>j < length (tasks st). rank (tasks st ! j) = 0 \<Longrightarrow>
   list_all returned (tasks st)"
  unfolding panicked_def list_all_length list_ex_length
  using rank_0 by blast

lemma drain_complete:
  assumes np: "\<not> panicked (run E s m (drain n) st)"
    and le: "length (Attachments m) \<le> n"
    and snd: "sound m st"
  shows "pending (run E s m (drain n) st) = []
       \<and> list_all returned (tasks (run E s m (drain n) st))"
proof -
  let ?st1 = "run E s m (replicate n 0) st"
  let ?st2 = "run E s m (workers_drain n) ?st1"
  have fin: "run E s m (drain n) st = ?st2" by (simp add: drain_split run_append)
  have np2: "\<not> panicked ?st2" using np by (simp add: fin)
  then have np1: "\<not> panicked ?st1" by (rule run_not_panicked)
  have "length (tasks st) + length (pending st) \<le> length (Attachments m)"
    using snd by (simp add: sound_def dispatched_def)
  then have p1: "pending ?st1 = []" using le by (intro feeder_drain [OF np1]) simp
  have "sound m ?st1" using snd by (rule run_sound)
  then have "length (tasks ?st1) + length (pending ?st1) \<le> length (Attachments m)"
    by (simp add: sound_def dispatched_def)
  then have len: "length (tasks ?st1) \<le> n" using le by simp
  note all = all_workers_drain [OF np2]
  have p2: "pending ?st2 = []" using all p1 by simp
  have "\<forall>j < length (tasks ?st2). rank (tasks ?st2 ! j) = 0"
    using all len by auto
  with np2 have "list_all returned (tasks ?st2)" by (rule not_panicked_returned)
  then show ?thesis using p2 by (simp add: fin)
qed

section \<open>The handler with goroutines: how a call ends\<close>

lemma assemble_same:
  "tasks (assemble E s m st) = tasks st" "fs (assemble E s m st) = fs st"
  "pending (assemble E s m st) = pending st"
  by (simp_all add: assemble_def Let_def split: prod.splits)

lemma assemble_panicked: "panicked (assemble E s m st) = panicked st"
  by (simp add: panicked_def assemble_same)

lemma assemble_empty: "fs st = [] \<Longrightarrow> assemble E s m st = st"
  by (simp add: assemble_def)

lemma assemble_calls:
  "fs st \<noteq> [] \<Longrightarrow>
   \<exists>re. calls (assemble E s m st) = calls st @ [EvUser ''@me'', EvSendEmbed (ChannelID m) re]
        \<and> Fields re = fs st"
  by (auto simp: assemble_def Let_def split: prod.splits sum.splits)

text \<open>The three ways a call of the handler ends.\<close>

lemma handler_cases:
  obtains (rejected) "length (Attachments m) < 1 \<or> length (Attachments m) > 5"
      "handleMessageCreate E s m sched w = (init m w)\<lparr>pending := []\<rparr>"
  | (panicked) st where "Attachments m \<noteq> []" "length (Attachments m) \<le> 5"
      "sound m st" "panicked st" "handleMessageCreate E s m sched w = st"
  | (replied) st where "Attachments m \<noteq> []" "length (Attachments m) \<le> 5"
      "sound m st" "\<not> panicked st" "pending st = []" "list_all returned (tasks st)"
      "handleMessageCreate E s m sched w = assemble E s m st"
proof (cases "length (Attachments m) < 1 \<or> length (Attachments m) > 5")
  case True
  then show ?thesis using rejected by (simp add: handleMessageCreate_def)
next
  case False
  let ?sr = "run E s m sched (init m w)"
  let ?st = "run E s m (drain (length (Attachments m))) ?sr"
  have st: "run E s m (sched @ drain (length (Attachments m))) (init m w) = ?st"
    by (rule run_append)
  have s0: "sound m ?sr" by (rule run_sound [OF sound_init])
  have snd: "sound m ?st" by (rule run_sound [OF s0])
  show ?thesis
  proof (cases "panicked ?st")
    case True
    then have "handleMessageCreate E s m sched w = ?st"
      using False by (simp add: handleMessageCreate_def st Let_def)
    then show ?thesis using panicked [of ?st] False snd True by simp
  next
    case np: False
    then have h: "handleMessageCreate E s m sched w = assemble E s m ?st"
      using False by (simp add: handleMessageCreate_def st Let_def)
    from drain_complete [OF np _ s0]
    have "pending ?st = []" "list_all returned (tasks ?st)" by simp_all
    then show ?thesis using replied [of ?st] False snd np h by simp
  qed
qed


section \<open>One goroutine from start to end\<close>

lemma task_run_Suc:
  "task_step E t fl w = (t', fl', evs, w') \<Longrightarrow>
   task_run E (Suc n) t fl w =
     (case task_run E n t' fl' w' of (t'', fl'', evs', w'') \<Rightarrow> (t'', fl'', evs @ evs', w''))"
  by simp

lemma task_run_returned: "task_run E n (Returned at oc) fl w = (Returned at oc, fl, [], w)"
  by (induction n) simp_all

lemma worker_unfold: "worker E at fl w = task_run E (Suc (Suc (Suc (Suc 0)))) (Download at) fl w"
  by (simp add: worker_def eval_nat_numeral)

lemma download_too_large:
  assumes "http_Get E (MessageAttachment.URL at) w = (Inr resp, w1)"
    and "io_ReadAll (Response.Body resp) = Inr body"
    and "length body > 10 * 1024 * 1024"
  shows "task_step E (Download at) fl w =
           (Returned at (TooLarge (length body)), fl, [EvGet (MessageAttachment.URL at)], w1)"
  using assms by simp

lemma download_within:
  assumes "http_Get E (MessageAttachment.URL at) w = (Inr resp, w1)"
    and "io_ReadAll (Response.Body resp) = Inr body"
    and "length body \<le> 10 * 1024 * 1024"
  shows "task_step E (Download at) fl w =
           (Submit at body, fl, [EvGet (MessageAttachment.URL at)], w1)"
  using assms by simp

lemma worker_too_large:
  assumes "http_Get E (MessageAttachment.URL at) w = (Inr resp, w1)"
    and "io_ReadAll (Response.Body resp) = Inr body"
    and "length body > 10 * 1024 * 1024"
  shows "worker E at fl w =
           (Returned at (TooLarge (length body)), fl, [EvGet (MessageAttachment.URL at)], w1)"
  unfolding worker_unfold task_run_Suc [OF download_too_large [OF assms]]
  by (simp add: task_run_returned del: task_run.simps)




text \<open>In general: a paste that succeeds followed by insights that fail ends in the panic.\<close>

lemma nil_insights_panics:
  assumes "http_Get E (MessageAttachment.URL at) w = (Inr resp, w1)"
    and "io_ReadAll (Response.Body resp) = Inr body"
    and "length body \<le> 10 * 1024 * 1024"
    and p: "PasteLog (lib E) (mclc E) body w1 = (Inr pr, w2)"
    and i: "GetInsights (lib E) (mclc E) (PasteResponse.ID pr) w2 = (Inl err, w3)"
  shows "worker E at fl w =
           (Crashed at, fl,
            [EvGet (MessageAttachment.URL at), EvPasteLog body,
             EvGetInsights (PasteResponse.ID pr), EvPanic], w3)"
proof -
  have s2: "task_step E (Submit at body) fl w1 = (Analyse at pr, fl, [EvPasteLog body], w2)"
    using p by simp
  have s3: "task_step E (Analyse at pr) fl w2 =
      (Append at pr None, fl, [EvGetInsights (PasteResponse.ID pr)], w3)"
    using i by simp
  have s4: "task_step E (Append at pr None) fl w3 = (Crashed at, fl, [EvPanic], w3)" by simp
  show ?thesis
    unfolding worker_unfold task_run_Suc [OF download_within [OF assms(1,2,3)]]
      task_run_Suc [OF s2] task_run_Suc [OF s3] task_run_Suc [OF s4]
    by simp
qed

lemma worker_step_frame:
  "pending (worker_step E i st) = pending st
   \<and> length (tasks (worker_step E i st)) = length (tasks st)
   \<and> (\<forall>j. j \<noteq> i \<longrightarrow> tasks (worker_step E i st) ! j = tasks st ! j)"
proof (cases "i < length (tasks st)")
  case False
  then show ?thesis by (simp add: worker_step_def)
next
  case True
  obtain t' fl' evs w' where ts: "task_step E (tasks st ! i) (fs st) (world st) = (t', fl', evs, w')"
    by (metis prod_cases4)
  show ?thesis unfolding worker_step_unfold [OF True ts] by simp
qed

lemma early_return_keeps_fs:
  "task_step E t fl w = (Returned at oc, fl', evs, w') \<Longrightarrow> field_of t = [] \<Longrightarrow>
   field_of (Returned at oc) = [] \<Longrightarrow> fl' = fl"
  by (cases t rule: task_step_cases)
    (auto simp: Let_def split: prod.splits sum.splits if_splits)

section \<open>Runs in the small world\<close>

lemma drain_2:
  "drain (Suc (Suc 0)) = [0, 0, Suc 0, Suc 0, Suc 0, Suc 0, Suc (Suc 0), Suc (Suc 0), Suc (Suc 0), Suc (Suc 0)]"
  by (simp add: drain_def upt_rec eval_nat_numeral)

lemma demo_session_sel:
  "ChannelTyping demo_session ch w = (None, w)"
  "GetUser demo_session u w = (Inr \<lparr>User.ID = ''7'', Username = ''mclogs-bot''\<rparr>, w)"
  "ChannelMessageSendEmbed demo_session ch re w = (None, w)"
  "AvatarURL demo_session bu sz = ''cdn/avatars/'' @ User.ID bu @ ''?size='' @ sz"
  by (simp_all add: demo_session_def)

lemma message_with_sel:
  "ChannelID (message_with ats) = ''general''" "Attachments (message_with ats) = ats"
  by (simp_all add: message_with_def)

lemma demo_env_sel:
  "lib (demo_env tr) = stub_lib" "mclc (demo_env tr) = NewClient tr"
  "http_Get (demo_env tr) = cdn_Get"
  by (simp_all add: demo_env_def)

lemma stub_client_transport: "NewClient stub_transport = stub_client"
  by (simp add: stub_client_def stub_transport_def)

lemma demo_download_a:
  "MessageAttachment.URL at = ''cdn/a.log'' \<Longrightarrow>
   task_step (demo_env tr) (Download at) fl w =
     (Submit at ''hello world'', fl, [EvGet ''cdn/a.log''], w)"
  by (simp add: demo_env_sel cdn_Get_def)

lemma demo_submit_hello:
  "task_step (demo_env stub_transport) (Submit at ''hello world'') fl [] =
     (Analyse at (stub_paste ''a''), fl, [EvPasteLog ''hello world''], [(''a'', ''hello world'')])"
  by (simp add: demo_env_sel stub_client_transport stub_PasteLog_hello)

lemma demo_analyse_a:
  "task_step (demo_env stub_transport) (Analyse at (stub_paste ''a'')) fl [(''a'', ''hello world'')] =
     (Append at (stub_paste ''a'') (Some insights_a), fl, [EvGetInsights ''a''],
      [(''a'', ''hello world'')])"
  by (simp add: demo_env_sel stub_client_transport stub_GetInsights_a stub_paste_def insights_a_def)

lemma demo_append_a:
  "task_step E (Append at (stub_paste ''a'') (Some insights_a)) fl w =
     (Returned at (Field field_a), fl @ [field_a], [], w)"
  by (simp add: stub_paste_def insights_a_def field_a_def Let_def)

lemma text_plain_demo: "text_plain att_a" "\<not> text_plain att_png" "text_plain att_b"
  by (simp_all add: text_plain_def HasPrefix_def att_a_def att_png_def att_b_def)

lemma demo_run_a_png:
  "run (demo_env stub_transport) demo_session (message_with [att_a, att_png]) (drain (Suc (Suc 0)))
     (init (message_with [att_a, att_png]) []) =
   \<lparr>pending = [], typingStarted = True, tasks = [Returned att_a (Field field_a)],
    fs = [field_a],
    calls = [EvTyping ''general'', EvGet ''cdn/a.log'', EvPasteLog ''hello world'',
             EvGetInsights ''a''],
    world = [(''a'', ''hello world'')]\<rparr>"
proof -
  have u: "MessageAttachment.URL att_a = ''cdn/a.log''" by (simp add: att_a_def)
  have h: "HasPrefix (MessageAttachment.ContentType att_a) ''text/plain''"
     "\<not> HasPrefix (MessageAttachment.ContentType att_png) ''text/plain''"
    using text_plain_demo by (simp_all add: text_plain_def)
  show ?thesis
    by (simp add: drain_2 init_def message_with_sel feeder_step_def worker_step_def panicked_def
        h demo_download_a [OF u] demo_submit_hello demo_analyse_a demo_append_a demo_session_sel
        del: task_step.simps)
qed

lemma length_big_body: "length big_body = 11 * 1024 * 1024"
  by (simp add: big_body_def)

lemma demo_get_big:
  "http_Get (demo_env tr) (MessageAttachment.URL att_big) w =
     (Inr \<lparr>StatusCode = 200, Response.ContentType = ''text/plain'',
           Response.Body = Reader big_body None\<rparr>, w)"
  by (simp add: demo_env_sel cdn_Get_def att_big_def)

lemma drain_1: "drain (Suc 0) = [0, Suc 0, Suc 0, Suc 0, Suc 0]"
  by (simp add: drain_def eval_nat_numeral)

lemma demo_assemble:
  "fs st = [field_a] \<Longrightarrow>
   assemble (demo_env tr) demo_session (message_with ats) st =
     st\<lparr>calls := calls st @ [EvUser ''@me'', EvSendEmbed ''general'' (demo_embed [field_a])]\<rparr>"
  by (simp add: assemble_def demo_session_sel message_with_sel demo_embed_def demo_env_def)

lemma demo_handler_one:
  assumes u: "MessageAttachment.URL at = ''cdn/a.log''" and t: "text_plain at"
  shows "handleMessageCreate (demo_env stub_transport) demo_session (message_with [at]) [] []
           = demo_reply at"
proof -
  have h: "HasPrefix (MessageAttachment.ContentType at) ''text/plain''"
    using t by (simp add: text_plain_def)
  have r: "run (demo_env stub_transport) demo_session (message_with [at]) (drain (Suc 0))
       (init (message_with [at]) []) =
     \<lparr>pending = [], typingStarted = True, tasks = [Returned at (Field field_a)],
      fs = [field_a],
      calls = [EvTyping ''general'', EvGet ''cdn/a.log'', EvPasteLog ''hello world'',
               EvGetInsights ''a''],
      world = [(''a'', ''hello world'')]\<rparr>"
    by (simp add: drain_1 init_def message_with_sel feeder_step_def worker_step_def panicked_def
        h demo_download_a [OF u] demo_submit_hello demo_analyse_a demo_append_a demo_session_sel
        del: task_step.simps)
  show ?thesis
    by (simp add: handleMessageCreate_def message_with_sel r panicked_def demo_assemble
        demo_reply_def)
qed

lemma demo_handler_a_png:
  "handleMessageCreate (demo_env stub_transport) demo_session (message_with [att_a, att_png]) [] []
     = demo_reply att_a"
  by (simp add: handleMessageCreate_def message_with_sel demo_run_a_png panicked_def demo_assemble
      demo_reply_def)

lemma demo_reply_sel:
  "tasks (demo_reply at) = [Returned at (Field field_a)]" "fs (demo_reply at) = [field_a]"
  "calls (demo_reply at) =
     [EvTyping ''general'', EvGet ''cdn/a.log'', EvPasteLog ''hello world'',
      EvGetInsights ''a'', EvUser ''@me'', EvSendEmbed ''general'' (demo_embed [field_a])]"
  "\<not> panicked (demo_reply at)"
  by (simp_all add: demo_reply_def panicked_def)

lemma demo_handler_png:
  "handleMessageCreate (demo_env stub_transport) demo_session (message_with [att_png]) [] []
     = \<lparr>pending = [], typingStarted = False, tasks = [], fs = [], calls = [], world = []\<rparr>"
proof -
  have h: "\<not> HasPrefix (MessageAttachment.ContentType att_png) ''text/plain''"
    using text_plain_demo by (simp add: text_plain_def)
  have r: "run (demo_env stub_transport) demo_session (message_with [att_png]) (drain (Suc 0))
       (init (message_with [att_png]) []) =
     \<lparr>pending = [], typingStarted = False, tasks = [], fs = [], calls = [], world = []\<rparr>"
    by (simp add: drain_1 init_def message_with_sel feeder_step_def worker_step_def panicked_def h)
  show ?thesis
    by (simp add: handleMessageCreate_def message_with_sel r panicked_def assemble_def)
qed

lemma demo_get_a:
  "MessageAttachment.URL at = ''cdn/a.log'' \<Longrightarrow>
   http_Get (demo_env tr) (MessageAttachment.URL at) w =
     (Inr \<lparr>StatusCode = 200, Response.ContentType = ''text/plain'',
           Response.Body = Reader ''hello world'' None\<rparr>, w)"
  by (simp add: demo_env_sel cdn_Get_def)

lemma att_overstated_sel:
  "MessageAttachment.URL att_overstated = ''cdn/a.log''" "text_plain att_overstated"
  "Size att_overstated = 11 * 1024 * 1024"
  by (simp_all add: att_overstated_def att_a_def text_plain_def HasPrefix_def)

lemma paste_hello_body:
  "Request.Body (paste_request c ''hello world'') = ''content=hello+world''"
  by (simp add: paste_request_def QueryEscape_def escape_byte_def shouldEscape_def unreserved_def)

lemma paste_request_sel:
  "Method (paste_request c content) = ''POST''"
  "Request.URL (paste_request c content) = BaseURL c @ ''/1/log''"
  by (simp_all add: paste_request_def)

lemma NewClient_sel: "BaseURL (NewClient tr) = ''https://api.mclo.gs''" "HTTPClient (NewClient tr) = tr"
  by (simp_all add: NewClient_def)

lemma NewClient_parses: "url_Parse stub_lib (BaseURL (NewClient tr) @ ''/1/log'') = None"
  by (simp add: stub_lib_def NewClient_def)

lemma insights_down_paste:
  "insights_down (paste_request (NewClient tr) content) store
     = stub_transport (paste_request (NewClient tr) content) store"
  by (simp add: insights_down_def paste_request_sel NewClient_sel HasPrefix_def)

lemma stub_transport_hello:
  "stub_transport (paste_request (NewClient tr) ''hello world'') [] =
     (Inr \<lparr>StatusCode = 200, Response.ContentType = ''application/json'',
           Response.Body = Reader ''a'' None\<rparr>, [(''a'', ''hello world'')])"
  using stub_paste_hello
  by (simp add: stub_client_def stub_transport_def NewClient_def paste_request_def)

lemma insights_down_PasteLog_hello:
  "PasteLog stub_lib (NewClient insights_down) ''hello world'' [] =
     (Inr (stub_paste ''a''), [(''a'', ''hello world'')])"
proof -
  have "Decode_PasteResponse stub_lib (Reader ''a'' None) = Inr (stub_paste ''a'')"
    by (simp add: stub_lib_def)
  then show ?thesis
    by (simp add: PasteLog_unfold [OF NewClient_parses] NewClient_sel(2) insights_down_paste
        stub_transport_hello stub_paste_def)
qed

lemma insights_down_GetInsights:
  "GetInsights stub_lib (NewClient insights_down) ''a'' store =
     (Inl (net_Error ''connection refused''), store)"
  by (simp add: GetInsights_def NewRequest_def stub_lib_def NewClient_def insights_down_def
      HasPrefix_def)

lemma refusing_PasteLog_hello:
  "PasteLog stub_lib (NewClient refusing_hello) ''hello world'' [] =
     (Inl (net_Error ''connection reset''), [])"
  by (simp add: PasteLog_unfold [OF NewClient_parses] NewClient_sel(2) refusing_hello_def
      paste_hello_body)

lemma paste_second_body:
  "Request.Body (paste_request c ''second log'') = ''content=second+log''"
  by (simp add: paste_request_def QueryEscape_def escape_byte_def shouldEscape_def unreserved_def)

lemma stub_transport_second:
  "stub_transport (paste_request (NewClient tr) ''second log'') [] =
     (Inr \<lparr>StatusCode = 200, Response.ContentType = ''application/json'',
           Response.Body = Reader ''a'' None\<rparr>, [(''a'', ''second log'')])"
  by (simp add: stub_transport_def NewClient_def stub_service_def paste_request_def form_content_def
      HasPrefix_def QueryEscape_def escape_byte_def shouldEscape_def unreserved_def
      stub_new_id_def stub_enc_def stub_paste_def)

lemma refusing_PasteLog_second:
  "PasteLog stub_lib (NewClient refusing_hello) ''second log'' [] =
     (Inr (stub_paste ''a''), [(''a'', ''second log'')])"
proof -
  have "Decode_PasteResponse stub_lib (Reader ''a'' None) = Inr (stub_paste ''a'')"
    by (simp add: stub_lib_def)
  then show ?thesis
    by (simp add: PasteLog_unfold [OF NewClient_parses] NewClient_sel(2) refusing_hello_def
        paste_second_body stub_transport_second stub_paste_def)
qed

lemma refusing_GetInsights_a:
  "GetInsights stub_lib (NewClient refusing_hello) ''a'' [(''a'', ''second log'')] =
     (Inr insights_a, [(''a'', ''second log'')])"
  by (simp add: GetInsights_def NewRequest_def stub_lib_def NewClient_def refusing_hello_def
      stub_transport_def stub_service_def HasPrefix_def StatusOK_def insights_a_def)

lemma goroutine_handler_isolates_paste_failure:
  "handleMessageCreate (demo_env refusing_hello) demo_session (message_with [att_a, att_b]) [] [] =
     \<lparr>pending = [], typingStarted = True,
      tasks = [Returned att_a (PasteFailed (net_Error ''connection reset'')),
               Returned att_b (Field field_a)],
      fs = [field_a],
      calls = [EvTyping ''general'', EvGet ''cdn/a.log'', EvPasteLog ''hello world'',
               EvGet ''cdn/b.log'', EvPasteLog ''second log'', EvGetInsights ''a'',
               EvUser ''@me'', EvSendEmbed ''general'' (demo_embed [field_a])],
      world = [(''a'', ''second log'')]\<rparr>"
proof -
  have u: "MessageAttachment.URL att_a = ''cdn/a.log''" by (simp add: att_a_def)
  have h: "HasPrefix (MessageAttachment.ContentType att_a) ''text/plain''"
    "HasPrefix (MessageAttachment.ContentType att_b) ''text/plain''"
    using text_plain_demo by (simp_all add: text_plain_def)
  have b1: "task_step (demo_env refusing_hello) (Download att_b) [] [] =
      (Submit att_b ''second log'', [], [EvGet ''cdn/b.log''], [])"
    by (simp add: demo_env_sel cdn_Get_def att_b_def)
  have a2: "task_step (demo_env refusing_hello) (Submit att_a ''hello world'') [] [] =
      (Returned att_a (PasteFailed (net_Error ''connection reset'')), [],
       [EvPasteLog ''hello world''], [])"
    by (simp add: demo_env_sel refusing_PasteLog_hello)
  have b2: "task_step (demo_env refusing_hello) (Submit att_b ''second log'') [] [] =
      (Analyse att_b (stub_paste ''a''), [], [EvPasteLog ''second log''], [(''a'', ''second log'')])"
    by (simp add: demo_env_sel refusing_PasteLog_second)
  have b3: "task_step (demo_env refusing_hello) (Analyse att_b (stub_paste ''a'')) []
        [(''a'', ''second log'')] =
      (Append att_b (stub_paste ''a'') (Some insights_a), [], [EvGetInsights ''a''],
       [(''a'', ''second log'')])"
    by (simp add: demo_env_sel refusing_GetInsights_a stub_paste_def)
  have r: "run (demo_env refusing_hello) demo_session (message_with [att_a, att_b])
       (drain (Suc (Suc 0))) (init (message_with [att_a, att_b]) []) =
     \<lparr>pending = [], typingStarted = True,
      tasks = [Returned att_a (PasteFailed (net_Error ''connection reset'')),
               Returned att_b (Field field_a)],
      fs = [field_a],
      calls = [EvTyping ''general'', EvGet ''cdn/a.log'', EvPasteLog ''hello world'',
               EvGet ''cdn/b.log'', EvPasteLog ''second log'', EvGetInsights ''a''],
      world = [(''a'', ''second log'')]\<rparr>"
    by (simp add: drain_2 init_def message_with_sel feeder_step_def worker_step_def panicked_def
        h demo_download_a [OF u] a2 b1 b2 b3 demo_append_a demo_session_sel
        del: task_step.simps(1,2,3,5))
  show ?thesis
    by (simp add: handleMessageCreate_def message_with_sel r panicked_def demo_assemble)
qed

lemma length_field_of: "length (field_of t) = (if field_of t = [] then 0 else 1)"
proof (cases t)
  case (Returned at oc)
  then show ?thesis by (cases oc) simp_all
qed simp_all

lemma length_fields_of:
  "length (fields_of ts) + length (filter (\<lambda>t. field_of t = []) ts) = length ts"
proof (induction ts)
  case Nil
  then show ?case by (simp add: fields_of_def)
next
  case (Cons t ts)
  then show ?case using length_field_of [of t] by (simp add: fields_of_def)
qed

lemma second_PasteLog_hello:
  "PasteLog stub_lib (NewClient insights_down_second) ''hello world'' [] =
     (Inr (stub_paste ''a''), [(''a'', ''hello world'')])"
proof -
  have "Decode_PasteResponse stub_lib (Reader ''a'' None) = Inr (stub_paste ''a'')"
    by (simp add: stub_lib_def)
  moreover have "insights_down_second (paste_request (NewClient insights_down_second) ''hello world'') []
      = stub_transport (paste_request (NewClient insights_down_second) ''hello world'') []"
    by (simp add: insights_down_second_def paste_request_sel NewClient_sel)
  ultimately show ?thesis
    by (simp add: PasteLog_unfold [OF NewClient_parses] NewClient_sel(2)
        stub_transport_hello stub_paste_def)
qed

lemma second_GetInsights_a:
  "GetInsights stub_lib (NewClient insights_down_second) ''a'' [(''a'', ''hello world'')] =
     (Inr insights_a, [(''a'', ''hello world'')])"
  by (simp add: GetInsights_def NewRequest_def stub_lib_def NewClient_def insights_down_second_def
      stub_transport_def stub_service_def HasPrefix_def StatusOK_def insights_a_def)

lemma stub_transport_second_after:
  "stub_transport (paste_request (NewClient tr) ''second log'') [(''a'', ''hello world'')] =
     (Inr \<lparr>StatusCode = 200, Response.ContentType = ''application/json'',
           Response.Body = Reader ''aa'' None\<rparr>,
      [(''aa'', ''second log''), (''a'', ''hello world'')])"
  by (simp add: stub_transport_def NewClient_def stub_service_def paste_request_def form_content_def
      HasPrefix_def QueryEscape_def escape_byte_def shouldEscape_def unreserved_def
      stub_new_id_def stub_enc_def stub_paste_def)

lemma second_PasteLog_second:
  "PasteLog stub_lib (NewClient insights_down_second) ''second log'' [(''a'', ''hello world'')] =
     (Inr (stub_paste ''aa''), [(''aa'', ''second log''), (''a'', ''hello world'')])"
proof -
  have "Decode_PasteResponse stub_lib (Reader ''aa'' None) = Inr (stub_paste ''aa'')"
    by (simp add: stub_lib_def)
  moreover have "insights_down_second (paste_request (NewClient insights_down_second) ''second log'')
        [(''a'', ''hello world'')]
      = stub_transport (paste_request (NewClient insights_down_second) ''second log'')
        [(''a'', ''hello world'')]"
    by (simp add: insights_down_second_def paste_request_sel NewClient_sel)
  ultimately show ?thesis
    by (simp add: PasteLog_unfold [OF NewClient_parses] NewClient_sel(2)
        stub_transport_second_after stub_paste_def)
qed

lemma second_GetInsights_aa:
  "GetInsights stub_lib (NewClient insights_down_second) ''aa'' store =
     (Inl (net_Error ''connection refused''), store)"
  by (simp add: GetInsights_def NewRequest_def stub_lib_def NewClient_def insights_down_second_def)


section \<open>The handler with goroutines: under every schedule\<close>

text \<open>
  A message with no attachment or with more than five is turned away: no call leaves
  the process, the world is as it was, no goroutine is started and no field collected.
  Otherwise the attachments for which a goroutine is started are an initial part of the
  attachments whose content type begins with \<open>text/plain\<close>, and all of them in a run
  that no panic has ended.
\<close>

lemma dispatch_follows_filter:
  "(length (Attachments m) < 1 \<or> length (Attachments m) > 5 \<longrightarrow>
      calls (handleMessageCreate E s m sched w) = []
      \<and> world (handleMessageCreate E s m sched w) = w
      \<and> tasks (handleMessageCreate E s m sched w) = []
      \<and> fs (handleMessageCreate E s m sched w) = [])
   \<and> (1 \<le> length (Attachments m) \<and> length (Attachments m) \<le> 5 \<longrightarrow>
      prefix (map attachment_of (tasks (handleMessageCreate E s m sched w)))
        (filter text_plain (Attachments m))
      \<and> (\<not> panicked (handleMessageCreate E s m sched w) \<longrightarrow>
           map attachment_of (tasks (handleMessageCreate E s m sched w))
             = filter text_plain (Attachments m)))"
proof (cases rule: handler_cases [of m E s sched w])
  case rejected
  then show ?thesis by (auto simp: init_def)
next
  case (panicked st)
  then have "map attachment_of (tasks st) @ filter text_plain (pending st)
       = filter text_plain (Attachments m)"
    by (simp add: sound_def dispatched_def)
  then have "prefix (map attachment_of (tasks st)) (filter text_plain (Attachments m))"
    by (metis prefixI)
  then show ?thesis using panicked by simp
next
  case (replied st)
  then have "map attachment_of (tasks st) = filter text_plain (Attachments m)"
    by (simp add: sound_def dispatched_def)
  then show ?thesis using replied by (simp add: assemble_same)
qed

lemma dispatch_follows_filter_example:
  "length (Attachments (message_with [att_a, att_png])) = 2
   \<and> \<not> panicked (handleMessageCreate (demo_env stub_transport) demo_session
                    (message_with [att_a, att_png]) [] [])
   \<and> map attachment_of (tasks (handleMessageCreate (demo_env stub_transport) demo_session
                                (message_with [att_a, att_png]) [] [])) = [att_a]
   \<and> length (Attachments (message_with [])) < 1
   \<and> calls (handleMessageCreate (demo_env stub_transport) demo_session (message_with []) [] []) = []"
proof -
  have l: "length (Attachments (message_with [att_a, att_png])) = 2"
    by (simp add: message_with_sel)
  have f: "filter text_plain (Attachments (message_with [att_a, att_png])) = [att_a]"
    by (simp add: message_with_sel text_plain_demo)
  have np: "\<not> panicked (handleMessageCreate (demo_env stub_transport) demo_session
                    (message_with [att_a, att_png]) [] [])"
    by (simp add: demo_handler_a_png demo_reply_sel)
  have e: "length (Attachments (message_with [])) < 1" by (simp add: message_with_sel)
  show ?thesis
    using l f np e
      dispatch_follows_filter [of "message_with [att_a, att_png]" "demo_env stub_transport" demo_session
        "[]" "[]"]
      dispatch_follows_filter [of "message_with []" "demo_env stub_transport" demo_session "[]" "[]"]
    by simp
qed

text \<open>
  In a run that no panic has ended, every goroutine has returned when the lines after
  \<open>wg.Wait()\<close> are reached, and \<open>fs\<close> holds exactly the fields of the goroutines that
  returned with one, as a multiset; if \<open>fs\<close> is empty no reply is sent, otherwise exactly
  one, and its fields are \<open>fs\<close>. A run that a panic has ended has sent no reply.
\<close>

lemma reply_when_reached:
  "(\<not> panicked (handleMessageCreate E s m sched w) \<longrightarrow>
      list_all returned (tasks (handleMessageCreate E s m sched w))
      \<and> mset (fs (handleMessageCreate E s m sched w))
          = mset (fields_of (tasks (handleMessageCreate E s m sched w)))
      \<and> (1 \<le> length (Attachments m) \<and> length (Attachments m) \<le> 5 \<longrightarrow>
            length (fs (handleMessageCreate E s m sched w))
            + length (filter (\<lambda>t. field_of t = []) (tasks (handleMessageCreate E s m sched w)))
            = length (filter text_plain (Attachments m)))
      \<and> (fs (handleMessageCreate E s m sched w) = [] \<longrightarrow>
            filter is_send (calls (handleMessageCreate E s m sched w)) = [])
      \<and> (fs (handleMessageCreate E s m sched w) \<noteq> [] \<longrightarrow>
            (\<exists>re. filter is_send (calls (handleMessageCreate E s m sched w))
                    = [EvSendEmbed (ChannelID m) re]
                 \<and> Fields re = fs (handleMessageCreate E s m sched w))))
   \<and> (panicked (handleMessageCreate E s m sched w) \<longrightarrow>
        filter is_send (calls (handleMessageCreate E s m sched w)) = [])"
proof (cases rule: handler_cases [of m E s sched w])
  case rejected
  then show ?thesis by (auto simp: init_def panicked_def fields_of_def)
next
  case (panicked st)
  then show ?thesis by (simp add: sound_def typed_def)
next
  case (replied st)
  have c: "mset (fs st) = mset (fields_of (tasks st))"
    and ns: "filter is_send (calls st) = []"
    and d: "map attachment_of (tasks st) = filter text_plain (Attachments m)"
    using replied(3,5) by (simp_all add: sound_def collected_def typed_def dispatched_def)
  have "length (fs st) = length (fields_of (tasks st))"
    using c by (rule mset_eq_length)
  moreover have "length (tasks st) = length (filter text_plain (Attachments m))"
    using d by (metis length_map)
  ultimately have n: "length (fs st) + length (filter (\<lambda>t. field_of t = []) (tasks st))
      = length (filter text_plain (Attachments m))"
    using length_fields_of [of "tasks st"] by simp
  show ?thesis
  proof (cases "fs st = []")
    case True
    then show ?thesis using replied c ns n by (simp add: assemble_empty)
  next
    case False
    from assemble_calls [OF False, of E s m] obtain re where
      "calls (assemble E s m st) = calls st @ [EvUser ''@me'', EvSendEmbed (ChannelID m) re]"
      "Fields re = fs st" by blast
    then have "filter is_send (calls (assemble E s m st)) = [EvSendEmbed (ChannelID m) re]
        \<and> Fields re = fs (assemble E s m st)"
      using ns by (simp add: assemble_same)
    then show ?thesis using replied c False n by (auto simp: assemble_same assemble_panicked)
  qed
qed

lemma reply_when_reached_example:
  "\<not> panicked (handleMessageCreate (demo_env stub_transport) demo_session
                 (message_with [att_a, att_png]) [] [])
   \<and> fs (handleMessageCreate (demo_env stub_transport) demo_session
             (message_with [att_a, att_png]) [] []) = [field_a]
   \<and> list_all returned (tasks (handleMessageCreate (demo_env stub_transport) demo_session
                                  (message_with [att_a, att_png]) [] []))
   \<and> filter is_send (calls (handleMessageCreate (demo_env stub_transport) demo_session
                              (message_with [att_a, att_png]) [] []))
       = [EvSendEmbed ''general'' (demo_embed [field_a])]
   \<and> \<not> panicked (handleMessageCreate (demo_env stub_transport) demo_session
                 (message_with [att_png]) [] [])
   \<and> fs (handleMessageCreate (demo_env stub_transport) demo_session
             (message_with [att_png]) [] []) = []
   \<and> filter is_send (calls (handleMessageCreate (demo_env stub_transport) demo_session
                              (message_with [att_png]) [] [])) = []"
proof -
  let ?r = "handleMessageCreate (demo_env stub_transport) demo_session
              (message_with [att_a, att_png]) [] []"
  let ?q = "handleMessageCreate (demo_env stub_transport) demo_session
              (message_with [att_png]) [] []"
  have np: "\<not> panicked ?r" and f: "fs ?r = [field_a]"
    and c: "filter is_send (calls ?r) = [EvSendEmbed ''general'' (demo_embed [field_a])]"
    by (simp_all add: demo_handler_a_png demo_reply_sel)
  have nq: "\<not> panicked ?q" and g: "fs ?q = []"
    by (simp_all add: demo_handler_png panicked_def)
  have "list_all returned (tasks ?r)"
    using np reply_when_reached [of "demo_env stub_transport" demo_session
        "message_with [att_a, att_png]" "[]" "[]"] by blast
  moreover have "filter is_send (calls ?q) = []"
    using nq g reply_when_reached [of "demo_env stub_transport" demo_session
        "message_with [att_png]" "[]" "[]"] by blast
  ultimately show ?thesis using np f c nq g by simp
qed

section \<open>The claims about the handler\<close>

text \<open>
  C1. Isolation of per-attachment failures. The handler of main.go does not have it: on
  a message with two plain-text attachments of which the first is refused by the paste
  service, \<open>log.Fatalf\<close> ends the process after the first submission; the second
  attachment is never downloaded and nothing is replied. (A failed download, a failed
  read and an oversized body only skip the attachment, in the same loop, and the handler
  with goroutines returns from the one goroutine: see
  \<open>goroutine_handler_isolates_paste_failure\<close>.)
\<close>

theorem main_go_paste_failure_is_fatal:
  "main_go_handleMessageCreate (demo_env refusing_hello) demo_session
     (message_with [att_a, att_b]) [] =
     (True,
      [EvTyping ''general'', EvGet ''cdn/a.log'', EvPasteLog ''hello world'', EvFatal], [])"
proof -
  have h: "HasPrefix (MessageAttachment.ContentType att_a) ''text/plain''"
    using text_plain_demo by (simp add: text_plain_def)
  have g: "http_Get (demo_env refusing_hello) (MessageAttachment.URL att_a) [] =
     (Inr \<lparr>StatusCode = 200, Response.ContentType = ''text/plain'',
           Response.Body = Reader ''hello world'' None\<rparr>, [])"
    by (rule demo_get_a) (simp add: att_a_def)
  have u: "MessageAttachment.URL att_a = ''cdn/a.log''" by (simp add: att_a_def)
  show ?thesis
    using g
    by (simp add: main_go_handleMessageCreate_def message_with_sel h demo_session_sel
        demo_env_sel(1,2) refusing_PasteLog_hello u)
qed

text \<open>
  C2. A reply field with a fallback title when the insights fail. The handler with
  goroutines does not produce it: with the paste accepted and the insights route out of
  order, the goroutine logs the failure, goes on with a \<open>nil\<close> pointer and panics on
  \<open>an.Title\<close>; the process ends and nothing is replied.
\<close>

theorem insights_failure_panics:
  "handleMessageCreate (demo_env insights_down) demo_session (message_with [att_a]) [] [] =
     \<lparr>pending = [], typingStarted = True, tasks = [Crashed att_a], fs = [],
      calls = [EvTyping ''general'', EvGet ''cdn/a.log'', EvPasteLog ''hello world'',
               EvGetInsights ''a'', EvPanic],
      world = [(''a'', ''hello world'')]\<rparr>"
proof -
  have u: "MessageAttachment.URL att_a = ''cdn/a.log''" by (simp add: att_a_def)
  have h: "HasPrefix (MessageAttachment.ContentType att_a) ''text/plain''"
    using text_plain_demo by (simp add: text_plain_def)
  have s2: "task_step (demo_env insights_down) (Submit att_a ''hello world'') [] [] =
      (Analyse att_a (stub_paste ''a''), [], [EvPasteLog ''hello world''], [(''a'', ''hello world'')])"
    by (simp add: demo_env_sel insights_down_PasteLog_hello)
  have s3: "task_step (demo_env insights_down) (Analyse att_a (stub_paste ''a'')) []
        [(''a'', ''hello world'')] =
      (Append att_a (stub_paste ''a'') None, [], [EvGetInsights ''a''], [(''a'', ''hello world'')])"
    by (simp add: demo_env_sel insights_down_GetInsights stub_paste_def)
  have r: "run (demo_env insights_down) demo_session (message_with [att_a]) (drain (Suc 0))
       (init (message_with [att_a]) []) =
     \<lparr>pending = [], typingStarted = True, tasks = [Crashed att_a], fs = [],
      calls = [EvTyping ''general'', EvGet ''cdn/a.log'', EvPasteLog ''hello world'',
               EvGetInsights ''a'', EvPanic],
      world = [(''a'', ''hello world'')]\<rparr>"
    by (simp add: drain_1 init_def message_with_sel feeder_step_def worker_step_def panicked_def
        h demo_download_a [OF u] s2 s3 demo_session_sel del: task_step.simps(1,2,3))
  show ?thesis
    by (simp add: handleMessageCreate_def message_with_sel r panicked_def)
qed




text \<open>
  C5, amended. The handler never reads the declared size of an attachment; it measures
  the body it downloaded. For an attachment whose downloaded body is 11 MiB long,
  whatever size it declares, the goroutine returns after the download: no call to
  \<open>PasteLog\<close>, and \<open>fs\<close> as it was.
\<close>

theorem oversized_download_dropped:
  assumes "http_Get E (MessageAttachment.URL at) w = (Inr resp, w1)"
    and "io_ReadAll (Response.Body resp) = Inr body"
    and "length body = 11 * 1024 * 1024"
  shows "worker E at fl w =
           (Returned at (TooLarge (11 * 1024 * 1024)), fl, [EvGet (MessageAttachment.URL at)], w1)"
proof -
  have "length body > 10 * 1024 * 1024" unfolding assms(3) by simp
  from worker_too_large [OF assms(1,2) this, of fl] show ?thesis unfolding assms(3) .
qed

theorem oversized_download_dropped_witness:
  "length big_body = 11 * 1024 * 1024
   \<and> worker (demo_env stub_transport) att_big [] [] =
       (Returned att_big (TooLarge (11 * 1024 * 1024)), [], [EvGet ''cdn/big.log''], [])"
proof -
  have r: "io_ReadAll (Response.Body \<lparr>StatusCode = 200, Response.ContentType = ''text/plain'',
           Response.Body = Reader big_body None\<rparr>) = Inr big_body" by simp
  have u: "MessageAttachment.URL att_big = ''cdn/big.log''" by (simp add: att_big_def)
  have "worker (demo_env stub_transport) att_big [] [] =
       (Returned att_big (TooLarge (11 * 1024 * 1024)), [],
        [EvGet (MessageAttachment.URL att_big)], [])"
    by (rule oversized_download_dropped [OF demo_get_big r length_big_body])
  then show ?thesis unfolding u using length_big_body by (intro conjI)
qed

text \<open>
  As stated, with the declared size, the claim fails: an attachment that declares 11 MiB
  and delivers eleven bytes is submitted and gets its reply field.
\<close>

theorem overstated_size_is_submitted:
  "Size att_overstated = 11 * 1024 * 1024
   \<and> filter is_paste
        (calls (handleMessageCreate (demo_env stub_transport) demo_session
                  (message_with [att_overstated]) [] [])) = [EvPasteLog ''hello world'']
   \<and> fs (handleMessageCreate (demo_env stub_transport) demo_session
            (message_with [att_overstated]) [] []) = [field_a]"
  by (simp add: demo_handler_one [OF att_overstated_sel(1,2)] demo_reply_sel att_overstated_sel(3))

text \<open>
  C6. The reply: none if no goroutine collected a field, and otherwise exactly one,
  with one field for each. The handler with goroutines does not always send it. On a
  message with two plain-text attachments where all goes well for the first and the
  insights of the second paste cannot be had, \<open>fs\<close> holds the field of the first, both
  pastes were accepted, the goroutine of the second panics on \<open>an.Title\<close>, the process
  ends before \<open>wg.Wait()\<close> returns, and no reply is sent.
\<close>

theorem collected_field_never_sent:
  "handleMessageCreate (demo_env insights_down_second) demo_session
     (message_with [att_a, att_b]) [] [] =
     \<lparr>pending = [], typingStarted = True,
      tasks = [Returned att_a (Field field_a), Crashed att_b],
      fs = [field_a],
      calls = [EvTyping ''general'', EvGet ''cdn/a.log'', EvPasteLog ''hello world'',
               EvGetInsights ''a'', EvGet ''cdn/b.log'', EvPasteLog ''second log'',
               EvGetInsights ''aa'', EvPanic],
      world = [(''aa'', ''second log''), (''a'', ''hello world'')]\<rparr>"
proof -
  have u: "MessageAttachment.URL att_a = ''cdn/a.log''" by (simp add: att_a_def)
  have h: "HasPrefix (MessageAttachment.ContentType att_a) ''text/plain''"
    "HasPrefix (MessageAttachment.ContentType att_b) ''text/plain''"
    using text_plain_demo by (simp_all add: text_plain_def)
  have a2: "task_step (demo_env insights_down_second) (Submit att_a ''hello world'') [] [] =
      (Analyse att_a (stub_paste ''a''), [], [EvPasteLog ''hello world''],
       [(''a'', ''hello world'')])"
    by (simp add: demo_env_sel second_PasteLog_hello)
  have a3: "task_step (demo_env insights_down_second) (Analyse att_a (stub_paste ''a'')) []
        [(''a'', ''hello world'')] =
      (Append att_a (stub_paste ''a'') (Some insights_a), [], [EvGetInsights ''a''],
       [(''a'', ''hello world'')])"
    by (simp add: demo_env_sel second_GetInsights_a stub_paste_def)
  have b1: "task_step (demo_env insights_down_second) (Download att_b) [field_a]
        [(''a'', ''hello world'')] =
      (Submit att_b ''second log'', [field_a], [EvGet ''cdn/b.log''], [(''a'', ''hello world'')])"
    by (simp add: demo_env_sel cdn_Get_def att_b_def)
  have b2: "task_step (demo_env insights_down_second) (Submit att_b ''second log'') [field_a]
        [(''a'', ''hello world'')] =
      (Analyse att_b (stub_paste ''aa''), [field_a], [EvPasteLog ''second log''],
       [(''aa'', ''second log''), (''a'', ''hello world'')])"
    by (simp add: demo_env_sel second_PasteLog_second)
  have b3: "task_step (demo_env insights_down_second) (Analyse att_b (stub_paste ''aa'')) [field_a]
        [(''aa'', ''second log''), (''a'', ''hello world'')] =
      (Append att_b (stub_paste ''aa'') None, [field_a], [EvGetInsights ''aa''],
       [(''aa'', ''second log''), (''a'', ''hello world'')])"
    by (simp add: demo_env_sel second_GetInsights_aa stub_paste_def)
  have r: "run (demo_env insights_down_second) demo_session (message_with [att_a, att_b])
       (drain (Suc (Suc 0))) (init (message_with [att_a, att_b]) []) =
     \<lparr>pending = [], typingStarted = True,
      tasks = [Returned att_a (Field field_a), Crashed att_b],
      fs = [field_a],
      calls = [EvTyping ''general'', EvGet ''cdn/a.log'', EvPasteLog ''hello world'',
               EvGetInsights ''a'', EvGet ''cdn/b.log'', EvPasteLog ''second log'',
               EvGetInsights ''aa'', EvPanic],
      world = [(''aa'', ''second log''), (''a'', ''hello world'')]\<rparr>"
    by (simp add: drain_2 init_def message_with_sel feeder_step_def worker_step_def panicked_def
        h demo_download_a [OF u] a2 a3 b1 b2 b3 demo_append_a demo_session_sel
        del: task_step.simps(1,2,3,5))
  show ?thesis
    by (simp add: handleMessageCreate_def message_with_sel r panicked_def)
qed



end
